theory Spec2Isabelle
  imports Complex_Main
begin

section \<open>The digital drop receiver of \<^verbatim>\<open>src/svxlink/trx/Ddr.cpp\<close>\<close>

text \<open>
  The theory embeds the per-channel signal path of \<^verbatim>\<open>Ddr.cpp\<close>: the FIR decimator,
  the decimator cascades, the frequency translator, the two channelizers, the FM and AM
  demodulators, the channel that wires them together, and the name registry of the
  receivers.

  Conventions of the embedding.
  \<^item> C++ \<^verbatim>\<open>float\<close> and \<^verbatim>\<open>double\<close> values are idealised as \<^typ>\<open>real\<close>, and
    \<^verbatim>\<open>complex<float>\<close> as \<^typ>\<open>complex\<close>: the rounding of arithmetic, infinities and
    NaN are outside the model; the conversion of an integer offset to \<^verbatim>\<open>float\<close> is
    modelled with its rounding. Where the C++ would produce a NaN (a zero sample in the FM normaliser,
    a non-positive argument of \<^verbatim>\<open>log10\<close>) the theorems carry a hypothesis that
    excludes the input.
  \<^item> \<^verbatim>\<open>int\<close>, \<^verbatim>\<open>unsigned\<close> and \<^verbatim>\<open>size_t\<close> counters are \<^typ>\<open>nat\<close> or \<^typ>\<open>int\<close>;
    the one place where an unsigned subtraction can wrap is written out modulo \<open>2^32\<close>.
    The conversion of a floating-point value to \<^verbatim>\<open>int\<close> drops the fraction; where the
    code does not bound the value first, a value outside 32 bits is an error value.
  \<^item> A failed \<^verbatim>\<open>assert\<close>, a trapped division and a null dereference are error values:
    a function that can fail returns \<open>error + result\<close>.
  \<^item> A \<^verbatim>\<open>vector\<close> is a list. An output parameter \<^verbatim>\<open>vector<T> &out\<close> is passed in
    (its old contents) and returned (its new contents).
\<close>

datatype error =
    ModuloByZero        \<comment> \<open>\<^verbatim>\<open>in.size() % dec_fact\<close> or a division with a zero divisor\<close>
  | AssertBatchSize     \<comment> \<open>\<^verbatim>\<open>assert(in.size() % dec_fact == 0)\<close>\<close>
  | AssertTaps          \<comment> \<open>\<^verbatim>\<open>assert(taps >= dec_fact)\<close>\<close>
  | AssertSrcEnd        \<comment> \<open>\<^verbatim>\<open>assert(src != in.end())\<close> inside the copy loop\<close>
  | AssertNumOut        \<comment> \<open>\<^verbatim>\<open>assert(num_out == orig_count / dec_fact)\<close>\<close>
  | NullPointer         \<comment> \<open>a call through a null \<^verbatim>\<open>dec\<close>, \<^verbatim>\<open>channelizer\<close> or \<^verbatim>\<open>demod\<close>\<close>
  | DeleteIndeterminate \<comment> \<open>\<^verbatim>\<open>delete dec\<close> on a pointer that was never initialised\<close>
  | IntOutOfRange       \<comment> \<open>a floating-point value converted to an \<^verbatim>\<open>int\<close> that cannot hold it\<close>

subsection \<open>The FIR decimator (class \<^verbatim>\<open>Decimator<T>\<close>)\<close>

text \<open>
  The sample type \<^verbatim>\<open>T\<close> is \<^verbatim>\<open>float\<close> or \<^verbatim>\<open>complex<float>\<close>; the coefficients are
  \<^verbatim>\<open>float\<close>. The product \<^verbatim>\<open>coeff[tap] * p_Z[tap]\<close> is the scaling of a sample by a
  real number, \<open>c *\<^sub>R z\<close>. The delay line \<^verbatim>\<open>p_Z\<close> is a list of \<^verbatim>\<open>taps\<close> samples,
  index 0 first; the null pointer of the default constructor is the empty list.
\<close>

record 'a Decimator =
  dec_fact :: nat
  p_Z :: "'a list"
  taps :: nat
  set_coeff :: "real list"
  coeff :: "real list"

definition Decimator_default :: "'a Decimator" where
  "Decimator_default =
     \<lparr>dec_fact = 0, p_Z = [], taps = 0, set_coeff = [], coeff = []\<rparr>"

text \<open>
  \<^verbatim>\<open>setDecimatorParams(dec_fact, coeff, taps)\<close>: the first \<^verbatim>\<open>taps\<close> entries of the
  coefficient array become both the design and the working coefficients, and the delay
  line is reallocated and zeroed.
\<close>

definition setDecimatorParams ::
  "'a::real_vector Decimator \<Rightarrow> nat \<Rightarrow> real list \<Rightarrow> nat \<Rightarrow> 'a Decimator" where
  "setDecimatorParams d M cs T =
     d\<lparr>set_coeff := take T cs, dec_fact := M, coeff := take T cs, taps := T,
       p_Z := replicate T 0\<rparr>"

definition Decimator_new :: "nat \<Rightarrow> real list \<Rightarrow> nat \<Rightarrow> 'a::real_vector Decimator" where
  "Decimator_new M cs T =
     setDecimatorParams \<lparr>dec_fact = M, p_Z = [], taps = T, set_coeff = [], coeff = []\<rparr> M cs T"

text \<open>\<^verbatim>\<open>setGain(gain_adjust)\<close>: working coefficients = design coefficients times
  \<^verbatim>\<open>pow(10.0, gain_adjust / 20.0)\<close>.\<close>

definition setGain :: "'a Decimator \<Rightarrow> real \<Rightarrow> 'a Decimator" where
  "setGain d gain_adjust =
     d\<lparr>coeff := map (\<lambda>c. c * 10 powr (gain_adjust / 20)) (set_coeff d)\<rparr>"

text \<open>The FIR sum: \<^verbatim>\<open>T sum(0); for (tap = 0; tap < taps; tap++) sum += coeff[tap] * p_Z[tap];\<close>
  accumulated from tap 0 upwards, as the loop does.\<close>

definition fir_sum :: "nat \<Rightarrow> real list \<Rightarrow> 'a::real_vector list \<Rightarrow> 'a" where
  "fir_sum T cs z = foldl (\<lambda>s tap. s + (cs ! tap) *\<^sub>R (z ! tap)) 0 [0..<T]"

text \<open>
  One pass of the \<^verbatim>\<open>while (src != in.end())\<close> loop first shifts a block of \<open>M\<close>
  samples into the delay line: \<^verbatim>\<open>memmove\<close> moves the first \<open>T - M\<close> entries up by
  \<open>M\<close>, and the copy loop runs \<^verbatim>\<open>tap\<close> from \<open>M - 1\<close> down to 0, so the block lands in
  \<open>p_Z[M-1], \<dots>, p_Z[0]\<close> with its last (newest) sample at index 0.
\<close>

definition shift_in :: "nat \<Rightarrow> nat \<Rightarrow> 'a list \<Rightarrow> 'a list \<Rightarrow> 'a list" where
  "shift_in M T z block = rev block @ take (T - M) z"

text \<open>
  Then the FIR sum of the new delay line is appended to \<^verbatim>\<open>out\<close>.
  The loop is entered only after \<^verbatim>\<open>in.size() % dec_fact\<close> has been evaluated, which
  traps for \<open>M = 0\<close>; the branch for \<open>M = 0\<close> below is therefore never taken from
  \<open>decimate\<close> and only makes the recursion total.
\<close>

function decimate_loop ::
  "nat \<Rightarrow> nat \<Rightarrow> real list \<Rightarrow> 'a::real_vector list \<Rightarrow> 'a list \<Rightarrow> 'a list
     \<Rightarrow> error + ('a list \<times> 'a list)" where
  "decimate_loop M T cs z src out =
     (if src = [] then Inr (out, z)
      else if M = 0 then Inl ModuloByZero
      else if length src < M then Inl AssertSrcEnd
      else
        let z' = shift_in M T z (take M src)
        in decimate_loop M T cs z' (drop M src) (out @ [fir_sum T cs z']))"
  by pat_completeness auto
termination
  by (relation "measure (\<lambda>(M, T, cs, z, src, out). length src)") auto

declare decimate_loop.simps [simp del]

text \<open>\<^verbatim>\<open>decimate(out, in)\<close>. The result is the new contents of \<^verbatim>\<open>out\<close> and the
  decimator with its delay line advanced.\<close>

definition decimate ::
  "'a::real_vector Decimator \<Rightarrow> 'a list \<Rightarrow> 'a list \<Rightarrow> error + ('a list \<times> 'a Decimator)" where
  "decimate d out inp =
     (if dec_fact d = 0 then Inl ModuloByZero
      else if length inp mod dec_fact d \<noteq> 0 then Inl AssertBatchSize
      else if taps d < dec_fact d then Inl AssertTaps
      else
        case decimate_loop (dec_fact d) (taps d) (coeff d) (p_Z d) inp [] of
          Inl e \<Rightarrow> Inl e
        | Inr (out', z') \<Rightarrow>
            if length out' = length inp div dec_fact d
            then Inr (out', d\<lparr>p_Z := z'\<rparr>)
            else Inl AssertNumOut)"

text \<open>The delay line after the first \<open>j\<close> blocks of \<open>M\<close> samples of a batch have been
  shifted in, starting from the line \<open>z\<close>.\<close>

primrec delay_line :: "nat \<Rightarrow> nat \<Rightarrow> 'a list \<Rightarrow> 'a list \<Rightarrow> nat \<Rightarrow> 'a list" where
  "delay_line M T z inp 0 = z"
| "delay_line M T z inp (Suc j) =
     shift_in M T (delay_line M T z inp j) (take M (drop (j * M) inp))"

text \<open>A decimator as its constructor and member functions leave it: the delay line and
  both coefficient vectors have \<^verbatim>\<open>taps\<close> entries.\<close>

definition Decimator_ok :: "'a Decimator \<Rightarrow> bool" where
  "Decimator_ok d =
     (length (p_Z d) = taps d \<and> length (set_coeff d) = taps d \<and> length (coeff d) = taps d)"

subsection \<open>Cascades (classes \<^verbatim>\<open>DecimatorMS1\<close> to \<^verbatim>\<open>DecimatorMS5\<close>)\<close>

text \<open>
  A cascade holds references \<^verbatim>\<open>Decimator<T> &d1, &d2, \<dots>\<close> to decimators owned by
  somebody else. A reference is a name \<open>'r\<close>; the owner's decimators are a store from
  names to decimator states, and a call through a reference updates the store at that
  name. Sequencing stops at the first failed assertion.
\<close>

datatype 'r DecimatorMS =
    DecimatorMS1 'r
  | DecimatorMS2 'r 'r
  | DecimatorMS3 'r 'r 'r
  | DecimatorMS4 'r 'r 'r 'r
  | DecimatorMS5 'r 'r 'r 'r 'r

definition bindE :: "error + 'x \<Rightarrow> ('x \<Rightarrow> error + 'y) \<Rightarrow> error + 'y" where
  "bindE m f = (case m of Inl e \<Rightarrow> Inl e | Inr x \<Rightarrow> f x)"

text \<open>\<^verbatim>\<open>d.decimate(out, in)\<close> through the reference \<open>r\<close>.\<close>

definition decimate_ref ::
  "('r \<Rightarrow> 'a::real_vector Decimator) \<Rightarrow> 'r \<Rightarrow> 'a list \<Rightarrow> 'a list
     \<Rightarrow> error + ('a list \<times> ('r \<Rightarrow> 'a Decimator))" where
  "decimate_ref P r out inp =
     bindE (decimate (P r) out inp) (\<lambda>(out', d'). Inr (out', P(r := d')))"

fun MS_decFact :: "('r \<Rightarrow> 'a Decimator) \<Rightarrow> 'r DecimatorMS \<Rightarrow> nat" where
  "MS_decFact P (DecimatorMS1 d1) = dec_fact (P d1)"
| "MS_decFact P (DecimatorMS2 d1 d2) = dec_fact (P d1) * dec_fact (P d2)"
| "MS_decFact P (DecimatorMS3 d1 d2 d3) = dec_fact (P d1) * dec_fact (P d2) * dec_fact (P d3)"
| "MS_decFact P (DecimatorMS4 d1 d2 d3 d4) =
     dec_fact (P d1) * dec_fact (P d2) * dec_fact (P d3) * dec_fact (P d4)"
| "MS_decFact P (DecimatorMS5 d1 d2 d3 d4 d5) =
     dec_fact (P d1) * dec_fact (P d2) * dec_fact (P d3) * dec_fact (P d4) * dec_fact (P d5)"

text \<open>The intermediate vectors \<^verbatim>\<open>dec_samp1, \<dots>\<close> are fresh (empty) locals.\<close>

fun MS_decimate ::
  "('r \<Rightarrow> 'a::real_vector Decimator) \<Rightarrow> 'r DecimatorMS \<Rightarrow> 'a list \<Rightarrow> 'a list
     \<Rightarrow> error + ('a list \<times> ('r \<Rightarrow> 'a Decimator))" where
  "MS_decimate P (DecimatorMS1 d1) out inp = decimate_ref P d1 out inp"
| "MS_decimate P (DecimatorMS2 d1 d2) out inp =
     bindE (decimate_ref P d1 [] inp) (\<lambda>(dec_samp1, P1).
       decimate_ref P1 d2 out dec_samp1)"
| "MS_decimate P (DecimatorMS3 d1 d2 d3) out inp =
     bindE (decimate_ref P d1 [] inp) (\<lambda>(dec_samp1, P1).
     bindE (decimate_ref P1 d2 [] dec_samp1) (\<lambda>(dec_samp2, P2).
       decimate_ref P2 d3 out dec_samp2))"
| "MS_decimate P (DecimatorMS4 d1 d2 d3 d4) out inp =
     bindE (decimate_ref P d1 [] inp) (\<lambda>(dec_samp1, P1).
     bindE (decimate_ref P1 d2 [] dec_samp1) (\<lambda>(dec_samp2, P2).
     bindE (decimate_ref P2 d3 [] dec_samp2) (\<lambda>(dec_samp3, P3).
       decimate_ref P3 d4 out dec_samp3)))"
| "MS_decimate P (DecimatorMS5 d1 d2 d3 d4 d5) out inp =
     bindE (decimate_ref P d1 [] inp) (\<lambda>(dec_samp1, P1).
     bindE (decimate_ref P1 d2 [] dec_samp1) (\<lambda>(dec_samp2, P2).
     bindE (decimate_ref P2 d3 [] dec_samp2) (\<lambda>(dec_samp3, P3).
     bindE (decimate_ref P3 d4 [] dec_samp3) (\<lambda>(dec_samp4, P4).
       decimate_ref P4 d5 out dec_samp4))))"

text \<open>The stages of a cascade in the order they run.\<close>

fun MS_stages :: "'r DecimatorMS \<Rightarrow> 'r list" where
  "MS_stages (DecimatorMS1 d1) = [d1]"
| "MS_stages (DecimatorMS2 d1 d2) = [d1, d2]"
| "MS_stages (DecimatorMS3 d1 d2 d3) = [d1, d2, d3]"
| "MS_stages (DecimatorMS4 d1 d2 d3 d4) = [d1, d2, d3, d4]"
| "MS_stages (DecimatorMS5 d1 d2 d3 d4 d5) = [d1, d2, d3, d4, d5]"

text \<open>The batch length each stage of a run is entered with: the first stage sees the
  batch, every later stage the output of the one before it, which has one sample per
  \<open>dec_fact\<close> input samples.\<close>

fun stage_sizes :: "nat list \<Rightarrow> nat \<Rightarrow> nat list" where
  "stage_sizes [] len = []"
| "stage_sizes (M # Ms) len = len # stage_sizes Ms (len div M)"

subsection \<open>The filter tables of \<^verbatim>\<open>DdrFilterCoeffs.h\<close>\<close>

text \<open>
  The header with the coefficient arrays is not part of the sources at hand, so the
  tables are a parameter of every constructor that reads them. Each array
  \<^verbatim>\<open>coeff_x\<close> is a list and its companion \<^verbatim>\<open>coeff_x_cnt\<close> is the length of that list.
\<close>

record FilterCoeffs =
  coeff_dec_audio_32k_16k :: "real list"
  coeff_dec_160k_32k :: "real list"
  coeff_dec_192k_32k :: "real list"
  coeff_dec_32k_16k :: "real list"
  coeff_dec_960k_192k :: "real list"
  coeff_dec_192k_64k :: "real list"
  coeff_dec_64k_32k :: "real list"
  coeff_dec_192k_48k :: "real list"
  coeff_dec_48k_16k :: "real list"
  coeff_dec_2400k_800k :: "real list"
  coeff_dec_800k_160k :: "real list"
  coeff_25k_channel :: "real list"
  coeff_12k5_channel :: "real list"
  coeff_ssb_channel :: "real list"

subsection \<open>The translator (class \<^verbatim>\<open>Translate\<close>)\<close>

record Translate =
  samp_rate :: nat
  exp_lut :: "complex list"
  tr_n :: nat   \<comment> \<open>the member \<^verbatim>\<open>n\<close>, the phase index\<close>

text \<open>\<^verbatim>\<open>gcd(dividend, divisor)\<close>: the recursive Euclidean algorithm of the class.
  \<^verbatim>\<open>dividend % divisor\<close> traps for a zero divisor.\<close>

function Translate_gcd :: "nat \<Rightarrow> nat \<Rightarrow> error + nat" where
  "Translate_gcd dividend divisor =
     (if divisor = 0 then Inl ModuloByZero
      else
        let reminder = dividend mod divisor
        in if reminder = 0 then Inr divisor else Translate_gcd divisor reminder)"
  by pat_completeness auto
termination
  by (relation "measure (\<lambda>(dividend, divisor). divisor)") auto

declare Translate_gcd.simps [simp del]

text \<open>
  \<^verbatim>\<open>setOffset(int offset)\<close>. \<^verbatim>\<open>abs(offset)\<close> is passed to the \<^verbatim>\<open>unsigned\<close> parameter
  of \<^verbatim>\<open>gcd\<close>; the table entry is
  \<^verbatim>\<open>exp(complex<float>(0.0f, -2.0*M_PI*offset*i/samp_rate))\<close>, the quotient being
  computed in \<^verbatim>\<open>double\<close>. No intermediate integer exceeds the larger of the sample rate
  and \<open>|offset|\<close>, so the unbounded integers of the model agree with the 32-bit ones
  for every \<^verbatim>\<open>int\<close> offset whose absolute value exists.
\<close>

definition lut_entry :: "nat \<Rightarrow> int \<Rightarrow> nat \<Rightarrow> complex" where
  "lut_entry R offset i = exp (Complex 0 (- 2 * pi * real_of_int offset * real i / real R))"

definition Translate_setOffset :: "Translate \<Rightarrow> int \<Rightarrow> error + Translate" where
  "Translate_setOffset tr offset =
     (let tr1 = tr\<lparr>tr_n := 0, exp_lut := []\<rparr>
      in if offset = 0 then Inr tr1
         else
           bindE (Translate_gcd (samp_rate tr1) (nat \<bar>offset\<bar>)) (\<lambda>g.
             if g = 0 then Inl ModuloByZero
             else
               let N = samp_rate tr1 div g
               in Inr (tr1\<lparr>exp_lut := map (lut_entry (samp_rate tr1) offset) [0..<N]\<rparr>)))"

text \<open>The loop of \<^verbatim>\<open>iq_received\<close> for a non-empty table:
  \<^verbatim>\<open>out.push_back(*it * exp_lut[n]); if (++n == exp_lut.size()) n = 0;\<close>
  The index \<^verbatim>\<open>n\<close> is below the table size in every state that \<^verbatim>\<open>setOffset\<close> and this
  loop produce, so \<^verbatim>\<open>exp_lut[n]\<close> is never read out of range.\<close>

fun translate_loop ::
  "complex list \<Rightarrow> nat \<Rightarrow> complex list \<Rightarrow> complex list \<Rightarrow> complex list \<times> nat" where
  "translate_loop lut k [] out = (out, k)"
| "translate_loop lut k (x # xs) out =
     translate_loop lut (if k + 1 = length lut then 0 else k + 1) xs (out @ [x * lut ! k])"

definition Translate_iq_received ::
  "Translate \<Rightarrow> complex list \<Rightarrow> complex list \<Rightarrow> complex list \<times> Translate" where
  "Translate_iq_received tr out inp =
     (if length (exp_lut tr) > 0
      then (let (out', k) = translate_loop (exp_lut tr) (tr_n tr) inp []
            in (out', tr\<lparr>tr_n := k\<rparr>))
      else (inp, tr))"

text \<open>The C++ conversion of a floating-point value to \<^verbatim>\<open>int\<close>: the fraction is
  dropped (rounding towards zero).\<close>

definition double_to_int :: "real \<Rightarrow> int" where
  "double_to_int x = (if 0 \<le> x then \<lfloor>x\<rfloor> else \<lceil>x\<rceil>)"

text \<open>The conversion is undefined when the result does not fit the \<^verbatim>\<open>int\<close>, of 32 bits
  here. \<open>to_int_checked\<close> is the conversion at the two places where no test of the code
  bounds the value beforehand.\<close>

definition to_int_checked :: "real \<Rightarrow> error + int" where
  "to_int_checked x =
     (if - (2 ^ 31) \<le> double_to_int x \<and> double_to_int x < 2 ^ 31
      then Inr (double_to_int x)
      else Inl IntOutOfRange)"

text \<open>
  The conversion of an \<^verbatim>\<open>int\<close> to \<^verbatim>\<open>float\<close>: a \<^verbatim>\<open>float\<close> has a significand of 24
  bits, so an integer of absolute value below \<open>2^24\<close> is kept, and a larger one is rounded
  to the nearest multiple of the power of two \<open>q\<close> that brings it below \<open>2^24\<close>, a tie
  going to the even multiple. \<open>float_ulp\<close> is that \<open>q\<close>.
\<close>

function float_ulp :: "nat \<Rightarrow> nat" where
  "float_ulp a = (if a < 2 ^ 24 then 1 else 2 * float_ulp (a div 2))"
  by pat_completeness auto
termination
  by (relation "measure (\<lambda>a. a)") auto

declare float_ulp.simps [simp del]

definition int_to_float :: "int \<Rightarrow> real" where
  "int_to_float x =
     (let a = nat \<bar>x\<bar>;
          q = float_ulp a;
          lo = a div q;
          r = a mod q;
          m = (if q < 2 * r \<or> (2 * r = q \<and> odd lo) then lo + 1 else lo)
      in real_of_int (sgn x * int (m * q)))"

text \<open>The constructor \<^verbatim>\<open>Translate(unsigned samp_rate, float offset)\<close> passes its
  \<^verbatim>\<open>float\<close> to \<^verbatim>\<open>setOffset(int)\<close>, which converts it back to an \<^verbatim>\<open>int\<close>.\<close>

definition Translate_new :: "nat \<Rightarrow> real \<Rightarrow> error + Translate" where
  "Translate_new R offset =
     (case to_int_checked offset of
        Inl e \<Rightarrow> Inl e
      | Inr f \<Rightarrow> Translate_setOffset \<lparr>samp_rate = R, exp_lut = [], tr_n = 0\<rparr> f)"

subsection \<open>The channelizers (classes \<^verbatim>\<open>Channelizer960\<close> and \<^verbatim>\<open>Channelizer2400\<close>)\<close>

datatype Bandwidth = BW_WIDE | BW_20K | BW_10K | BW_6K

text \<open>The decimator members of the two classes, as names.\<close>

datatype dec960 =
    dec_960k_192k | dec_192k_64k | dec_64k_32k | dec_192k_48k | dec_48k_16k
  | ch_filt | ch_filt_narr | ch_filt_6k

datatype dec2400 =
    dec_2400k_800k | dec_800k_160k | dec_160k_32k | dec_32k_16k
  | ch_filt' | ch_filt_narr' | ch_filt_6k'

text \<open>A channelizer object: its decimator members and the pointer \<^verbatim>\<open>dec\<close> to the
  current cascade (\<open>None\<close> is the null pointer).\<close>

record 'r ChannelizerObj =
  decs :: "'r \<Rightarrow> complex Decimator"
  dec :: "'r DecimatorMS option"

definition Channelizer960_setBw :: "dec960 ChannelizerObj \<Rightarrow> Bandwidth \<Rightarrow> dec960 ChannelizerObj" where
  "Channelizer960_setBw c bw =
     (case bw of
        BW_WIDE \<Rightarrow> c\<lparr>dec := Some (DecimatorMS1 dec_960k_192k)\<rparr>
      | BW_20K \<Rightarrow> c\<lparr>dec := Some (DecimatorMS4 dec_960k_192k dec_192k_64k dec_64k_32k ch_filt)\<rparr>
      | BW_10K \<Rightarrow> c\<lparr>dec := Some (DecimatorMS4 dec_960k_192k dec_192k_48k dec_48k_16k ch_filt_narr)\<rparr>
      | BW_6K \<Rightarrow> c\<lparr>dec := Some (DecimatorMS4 dec_960k_192k dec_192k_48k dec_48k_16k ch_filt_6k)\<rparr>)"

definition Channelizer960_new :: "FilterCoeffs \<Rightarrow> dec960 ChannelizerObj" where
  "Channelizer960_new fc =
     Channelizer960_setBw
       \<lparr>decs = (\<lambda>r. case r of
            dec_960k_192k \<Rightarrow> Decimator_new 5 (coeff_dec_960k_192k fc) (length (coeff_dec_960k_192k fc))
          | dec_192k_64k \<Rightarrow> Decimator_new 3 (coeff_dec_192k_64k fc) (length (coeff_dec_192k_64k fc))
          | dec_64k_32k \<Rightarrow> Decimator_new 2 (coeff_dec_64k_32k fc) (length (coeff_dec_64k_32k fc))
          | dec_192k_48k \<Rightarrow> Decimator_new 4 (coeff_dec_192k_48k fc) (length (coeff_dec_192k_48k fc))
          | dec_48k_16k \<Rightarrow> Decimator_new 3 (coeff_dec_48k_16k fc) (length (coeff_dec_48k_16k fc))
          | ch_filt \<Rightarrow> Decimator_new 1 (coeff_25k_channel fc) (length (coeff_25k_channel fc))
          | ch_filt_narr \<Rightarrow> Decimator_new 1 (coeff_12k5_channel fc) (length (coeff_12k5_channel fc))
          | ch_filt_6k \<Rightarrow> Decimator_new 1 (coeff_ssb_channel fc) (length (coeff_ssb_channel fc))),
        dec = None\<rparr>
       BW_20K"

definition Channelizer2400_setBw :: "dec2400 ChannelizerObj \<Rightarrow> Bandwidth \<Rightarrow> dec2400 ChannelizerObj" where
  "Channelizer2400_setBw c bw =
     (case bw of
        BW_WIDE \<Rightarrow> c\<lparr>dec := Some (DecimatorMS2 dec_2400k_800k dec_800k_160k)\<rparr>
      | BW_20K \<Rightarrow> c\<lparr>dec := Some (DecimatorMS4 dec_2400k_800k dec_800k_160k dec_160k_32k ch_filt')\<rparr>
      | BW_10K \<Rightarrow> c\<lparr>dec := Some (DecimatorMS5 dec_2400k_800k dec_800k_160k dec_160k_32k
                                    dec_32k_16k ch_filt_narr')\<rparr>
      | BW_6K \<Rightarrow> c\<lparr>dec := Some (DecimatorMS5 dec_2400k_800k dec_800k_160k dec_160k_32k
                                   dec_32k_16k ch_filt_6k')\<rparr>)"

text \<open>
  The constructor of \<^verbatim>\<open>Channelizer2400\<close> has no initialiser for \<^verbatim>\<open>dec\<close> (that of
  \<^verbatim>\<open>Channelizer960\<close> has \<^verbatim>\<open>dec(0)\<close>), and its body calls \<^verbatim>\<open>setBw(BW_20K)\<close>, which
  begins with \<^verbatim>\<open>delete dec\<close>: the pointer deleted is indeterminate, which is undefined
  behaviour. What the uninitialised member happens to hold is a parameter of the model:
  if it is null the \<^verbatim>\<open>delete\<close> does nothing and the construction goes on; anything
  else is the error \<open>DeleteIndeterminate\<close>.
\<close>

definition Channelizer2400_new :: "FilterCoeffs \<Rightarrow> bool \<Rightarrow> error + dec2400 ChannelizerObj" where
  "Channelizer2400_new fc dec_is_null =
     (if dec_is_null
      then Inr (Channelizer2400_setBw
       \<lparr>decs = (\<lambda>r. case r of
            dec_2400k_800k \<Rightarrow> Decimator_new 3 (coeff_dec_2400k_800k fc) (length (coeff_dec_2400k_800k fc))
          | dec_800k_160k \<Rightarrow> Decimator_new 5 (coeff_dec_800k_160k fc) (length (coeff_dec_800k_160k fc))
          | dec_160k_32k \<Rightarrow> Decimator_new 5 (coeff_dec_160k_32k fc) (length (coeff_dec_160k_32k fc))
          | dec_32k_16k \<Rightarrow> Decimator_new 2 (coeff_dec_32k_16k fc) (length (coeff_dec_32k_16k fc))
          | ch_filt' \<Rightarrow> Decimator_new 1 (coeff_25k_channel fc) (length (coeff_25k_channel fc))
          | ch_filt_narr' \<Rightarrow> Decimator_new 1 (coeff_12k5_channel fc) (length (coeff_12k5_channel fc))
          | ch_filt_6k' \<Rightarrow> Decimator_new 1 (coeff_ssb_channel fc) (length (coeff_ssb_channel fc))),
        dec = None\<rparr>
       BW_20K)
      else Inl DeleteIndeterminate)"

text \<open>The members common to both classes: \<^verbatim>\<open>dec->decFact()\<close>,
  \<^verbatim>\<open>chSampRate()\<close> = tuner rate \<^verbatim>\<open>/ dec->decFact()\<close> (an \<^verbatim>\<open>int\<close> division of positive
  numbers), and \<^verbatim>\<open>iq_received\<close> = \<^verbatim>\<open>dec->decimate(out, in)\<close>, whose output is also what
  the \<^verbatim>\<open>preDemod\<close> signal carries.\<close>

definition Obj_decFact :: "'r ChannelizerObj \<Rightarrow> error + nat" where
  "Obj_decFact c = (case dec c of None \<Rightarrow> Inl NullPointer | Some m \<Rightarrow> Inr (MS_decFact (decs c) m))"

definition Obj_chSampRate :: "nat \<Rightarrow> 'r ChannelizerObj \<Rightarrow> error + nat" where
  "Obj_chSampRate rate c =
     bindE (Obj_decFact c) (\<lambda>f. if f = 0 then Inl ModuloByZero else Inr (rate div f))"

definition Obj_iq_received ::
  "'r ChannelizerObj \<Rightarrow> complex list \<Rightarrow> complex list \<Rightarrow> error + (complex list \<times> 'r ChannelizerObj)" where
  "Obj_iq_received c out inp =
     (case dec c of
        None \<Rightarrow> Inl NullPointer
      | Some m \<Rightarrow> bindE (MS_decimate (decs c) m out inp) (\<lambda>(out', P'). Inr (out', c\<lparr>decs := P'\<rparr>)))"

text \<open>The abstract class \<^verbatim>\<open>Channelizer\<close> with its two implementations; a virtual call
  is a case distinction.\<close>

datatype Channelizer =
    Channelizer960 "dec960 ChannelizerObj"
  | Channelizer2400 "dec2400 ChannelizerObj"

fun setBw :: "Channelizer \<Rightarrow> Bandwidth \<Rightarrow> Channelizer" where
  "setBw (Channelizer960 c) bw = Channelizer960 (Channelizer960_setBw c bw)"
| "setBw (Channelizer2400 c) bw = Channelizer2400 (Channelizer2400_setBw c bw)"

fun decFact :: "Channelizer \<Rightarrow> error + nat" where
  "decFact (Channelizer960 c) = Obj_decFact c"
| "decFact (Channelizer2400 c) = Obj_decFact c"

fun chSampRate :: "Channelizer \<Rightarrow> error + nat" where
  "chSampRate (Channelizer960 c) = Obj_chSampRate 960000 c"
| "chSampRate (Channelizer2400 c) = Obj_chSampRate 2400000 c"

fun Channelizer_iq_received ::
  "Channelizer \<Rightarrow> complex list \<Rightarrow> complex list \<Rightarrow> error + (complex list \<times> Channelizer)" where
  "Channelizer_iq_received (Channelizer960 c) out inp =
     bindE (Obj_iq_received c out inp) (\<lambda>(out', c'). Inr (out', Channelizer960 c'))"
| "Channelizer_iq_received (Channelizer2400 c) out inp =
     bindE (Obj_iq_received c out inp) (\<lambda>(out', c'). Inr (out', Channelizer2400 c'))"

text \<open>The tuner rate a channelizer is built for, and the stage factors of its current
  cascade.\<close>

fun tunerRate :: "Channelizer \<Rightarrow> nat" where
  "tunerRate (Channelizer960 c) = 960000"
| "tunerRate (Channelizer2400 c) = 2400000"

fun stageFactors :: "Channelizer \<Rightarrow> nat list" where
  "stageFactors (Channelizer960 c) =
     (case dec c of None \<Rightarrow> [] | Some m \<Rightarrow> map (\<lambda>r. dec_fact (decs c r)) (MS_stages m))"
| "stageFactors (Channelizer2400 c) =
     (case dec c of None \<Rightarrow> [] | Some m \<Rightarrow> map (\<lambda>r. dec_fact (decs c r)) (MS_stages m))"

subsection \<open>The FM demodulator (class \<^verbatim>\<open>DemodulatorFm\<close>)\<close>

record DemodulatorFm =
  iold :: real
  qold :: real
  audio_dec_wb :: "real Decimator"
  audio_dec :: "real Decimator"
  wb_mode :: bool

text \<open>\<^verbatim>\<open>atan2(y, x)\<close> on the reals: the angle of the point \<open>(x, y)\<close> in \<open>(-\<pi>, \<pi>]\<close>, and 0
  at the origin.\<close>

definition atan2 :: "real \<Rightarrow> real \<Rightarrow> real" where
  "atan2 y x =
     (if 0 < x then arctan (y / x)
      else if x < 0 \<and> 0 \<le> y then arctan (y / x) + pi
      else if x < 0 \<and> y < 0 then arctan (y / x) - pi
      else if 0 < y then pi / 2
      else if y < 0 then - (pi / 2)
      else 0)"

definition setDemodParams :: "FilterCoeffs \<Rightarrow> DemodulatorFm \<Rightarrow> nat \<Rightarrow> real \<Rightarrow> DemodulatorFm" where
  "setDemodParams fc d rate max_dev =
     (let adj = real rate / (2 * pi * max_dev);
          adj = adj / 2;
          adj_db = 20 * log 10 adj;
          d1 = d\<lparr>audio_dec := setGain (audio_dec d) adj_db\<rparr>;
          d2 = d1\<lparr>wb_mode := (rate > 32000)\<rparr>
      in if rate = 160000
         then d2\<lparr>audio_dec_wb := setDecimatorParams (audio_dec_wb d2) 5
                    (coeff_dec_160k_32k fc) (length (coeff_dec_160k_32k fc))\<rparr>
         else if rate = 192000
         then d2\<lparr>audio_dec_wb := setDecimatorParams (audio_dec_wb d2) 6
                    (coeff_dec_192k_32k fc) (length (coeff_dec_192k_32k fc))\<rparr>
         else d2)"

definition DemodulatorFm_new :: "FilterCoeffs \<Rightarrow> nat \<Rightarrow> real \<Rightarrow> DemodulatorFm" where
  "DemodulatorFm_new fc rate max_dev =
     setDemodParams fc
       \<lparr>iold = 1, qold = 1,
        audio_dec_wb = Decimator_default,
        audio_dec = Decimator_new 2 (coeff_dec_audio_32k_16k fc) (length (coeff_dec_audio_32k_16k fc)),
        wb_mode = False\<rparr>
       rate max_dev"

text \<open>The sample loop of \<^verbatim>\<open>iq_received\<close>; the arguments are \<^verbatim>\<open>iold\<close>, \<^verbatim>\<open>qold\<close>, the
  samples still to be read and the vector \<^verbatim>\<open>audio\<close> built so far.\<close>

fun fm_loop :: "real \<Rightarrow> real \<Rightarrow> complex list \<Rightarrow> real list \<Rightarrow> real list \<times> real \<times> real" where
  "fm_loop io qo [] audio = (audio, io, qo)"
| "fm_loop io qo (s # rest) audio =
     (let samp = s / complex_of_real (cmod s);
          i = Re samp;
          q = Im samp;
          demod = atan2 (q * io - i * qo) (i * io + q * qo)
      in fm_loop i q rest (audio @ [demod]))"

text \<open>\<^verbatim>\<open>iq_received(samples)\<close>: the result is what is handed to
  \<^verbatim>\<open>sinkWriteSamples\<close>, and the demodulator after the batch.\<close>

definition DemodulatorFm_iq_received ::
  "DemodulatorFm \<Rightarrow> complex list \<Rightarrow> error + (real list \<times> DemodulatorFm)" where
  "DemodulatorFm_iq_received d samples =
     (let (audio, i, q) = fm_loop (iold d) (qold d) samples [];
          d1 = d\<lparr>iold := i, qold := q\<rparr>
      in if wb_mode d1
         then bindE (decimate (audio_dec_wb d1) [] audio) (\<lambda>(dec_audio1, wb').
              bindE (decimate (audio_dec d1) [] dec_audio1) (\<lambda>(dec_audio, ad').
                Inr (dec_audio, d1\<lparr>audio_dec_wb := wb', audio_dec := ad'\<rparr>)))
         else bindE (decimate (audio_dec d1) [] audio) (\<lambda>(dec_audio, ad').
                Inr (dec_audio, d1\<lparr>audio_dec := ad'\<rparr>)))"

subsection \<open>The AM demodulator (class \<^verbatim>\<open>DemodulatorAm\<close>)\<close>

record DemodulatorAm =
  am_audio_dec :: "real Decimator"   \<comment> \<open>the member \<^verbatim>\<open>audio_dec\<close>\<close>

definition DemodulatorAm_new :: "FilterCoeffs \<Rightarrow> DemodulatorAm" where
  "DemodulatorAm_new fc =
     \<lparr>am_audio_dec =
        setGain (Decimator_new 2 (coeff_dec_32k_16k fc) (length (coeff_dec_32k_16k fc))) 10\<rparr>"

fun am_loop :: "complex list \<Rightarrow> real list \<Rightarrow> real list" where
  "am_loop [] audio = audio"
| "am_loop (samp # rest) audio = (let demod = cmod samp in am_loop rest (audio @ [demod]))"

text \<open>The call of the decimator is commented out in the source; \<^verbatim>\<open>audio\<close> itself is
  written to the sink.\<close>

definition DemodulatorAm_iq_received ::
  "DemodulatorAm \<Rightarrow> complex list \<Rightarrow> real list \<times> DemodulatorAm" where
  "DemodulatorAm_iq_received d samples = (am_loop samples [], d)"

subsection \<open>The channel (class \<^verbatim>\<open>Ddr::Channel\<close>)\<close>

datatype Modulation = MOD_FM | MOD_WBFM | MOD_AM

text \<open>The pointer \<^verbatim>\<open>demod\<close> points to one of the two demodulator members.\<close>

datatype demod_ref = FmDemod | AmDemod

text \<open>What the program prints, and its calls into the tuner object.\<close>

datatype event =
    ErrNameNotUnique string             \<comment> \<open>"The name for a Digital Drop Receiver (DDR) must be unique \<dots>"\<close>
  | ErrFqNotSet string                  \<comment> \<open>"Config variable name/FQ not set"\<close>
  | ErrWbrxNotSet string                \<comment> \<open>"Config variable name/WBRX not set"\<close>
  | ErrCouldNotCreateWbrx string string \<comment> \<open>"Could not create WBRX \<dots> specified in receiver \<dots>"\<close>
  | ErrUnsupportedRate nat              \<comment> \<open>"Unsupported tuner sampling rate \<dots>"\<close>
  | ErrChannelInit string               \<comment> \<open>"Could not initialize channel object for receiver \<dots>"\<close>
  | ErrUnknownModulation string string  \<comment> \<open>"Unknown modulation \<dots> specified in receiver \<dots>"\<close>
  | WarnCouldNotFit string string       \<comment> \<open>"WARNING: Could not fit DDR \<dots> into tuner \<dots>"\<close>
  | RegisterDdr string nat              \<comment> \<open>\<^verbatim>\<open>rtl->registerDdr(this)\<close>\<close>
  | UnregisterDdr string nat            \<comment> \<open>\<^verbatim>\<open>rtl->unregisterDdr(this)\<close>\<close>

record Channel =
  sample_rate :: nat
  channelizer :: "Channelizer option"
  fm_demod :: DemodulatorFm
  am_demod :: DemodulatorAm
  demod :: "demod_ref option"
  trans :: Translate
  enabled :: bool

text \<open>The constructor \<^verbatim>\<open>Channel(int fq_offset, unsigned sample_rate)\<close>; the member
  \<^verbatim>\<open>trans(sample_rate, fq_offset)\<close> takes the offset as a \<^verbatim>\<open>float\<close>.\<close>

definition Channel_new :: "FilterCoeffs \<Rightarrow> int \<Rightarrow> nat \<Rightarrow> error + Channel" where
  "Channel_new fc fq_offset rate =
     bindE (Translate_new rate (int_to_float fq_offset)) (\<lambda>tr.
       Inr \<lparr>sample_rate = rate, channelizer = None,
            fm_demod = DemodulatorFm_new fc 32000 5000,
            am_demod = DemodulatorAm_new fc,
            demod = None, trans = tr, enabled = True\<rparr>)"

definition Channel_setFqOffset :: "Channel \<Rightarrow> int \<Rightarrow> error + Channel" where
  "Channel_setFqOffset ch fq_offset =
     bindE (Translate_setOffset (trans ch) fq_offset) (\<lambda>tr. Inr (ch\<lparr>trans := tr\<rparr>))"

definition Channel_setModulation :: "FilterCoeffs \<Rightarrow> Channel \<Rightarrow> Modulation \<Rightarrow> error + Channel" where
  "Channel_setModulation fc ch m =
     (case channelizer ch of
        None \<Rightarrow> Inl NullPointer
      | Some c \<Rightarrow>
          (case m of
             MOD_FM \<Rightarrow>
               (let c' = setBw c BW_20K
                in bindE (chSampRate c') (\<lambda>r.
                     Inr (ch\<lparr>channelizer := Some c',
                             fm_demod := setDemodParams fc (fm_demod ch) r 5000,
                             demod := Some FmDemod\<rparr>)))
           | MOD_WBFM \<Rightarrow>
               (let c' = setBw c BW_WIDE
                in bindE (chSampRate c') (\<lambda>r.
                     Inr (ch\<lparr>channelizer := Some c',
                             fm_demod := setDemodParams fc (fm_demod ch) r 75000,
                             demod := Some FmDemod\<rparr>)))
           | MOD_AM \<Rightarrow>
               Inr (ch\<lparr>channelizer := Some (setBw c BW_10K), demod := Some AmDemod\<rparr>)))"

text \<open>\<^verbatim>\<open>initialize()\<close>: the result is the return value, the channel and what was
  printed. The flag says what the uninitialised \<^verbatim>\<open>dec\<close> of a new \<^verbatim>\<open>Channelizer2400\<close>
  holds.\<close>

definition Channel_initialize ::
  "FilterCoeffs \<Rightarrow> bool \<Rightarrow> Channel \<Rightarrow> error + (bool \<times> Channel \<times> event list)" where
  "Channel_initialize fc dec_is_null ch =
     (if sample_rate ch = 2400000
      then bindE (Channelizer2400_new fc dec_is_null) (\<lambda>c.
           bindE (Channel_setModulation fc (ch\<lparr>channelizer := Some (Channelizer2400 c)\<rparr>) MOD_FM)
             (\<lambda>ch'. Inr (True, ch', [])))
      else if sample_rate ch = 960000
      then bindE (Channel_setModulation fc
                    (ch\<lparr>channelizer := Some (Channelizer960 (Channelizer960_new fc))\<rparr>) MOD_FM)
             (\<lambda>ch'. Inr (True, ch', []))
      else Inr (False, ch, [ErrUnsupportedRate (sample_rate ch)]))"

definition Channel_chSampRate :: "Channel \<Rightarrow> error + nat" where
  "Channel_chSampRate ch =
     (case channelizer ch of None \<Rightarrow> Inl NullPointer | Some c \<Rightarrow> chSampRate c)"

text \<open>\<^verbatim>\<open>iq_received(samples)\<close>: the result is what the active demodulator writes to
  the audio sink (nothing for a disabled channel), and the channel after the batch.\<close>

definition Channel_iq_received :: "Channel \<Rightarrow> complex list \<Rightarrow> error + (real list \<times> Channel)" where
  "Channel_iq_received ch samples =
     (if enabled ch
      then
        (let (translated, tr') = Translate_iq_received (trans ch) [] samples
         in case channelizer ch of
              None \<Rightarrow> Inl NullPointer
            | Some c \<Rightarrow>
                bindE (Channelizer_iq_received c [] translated) (\<lambda>(channelized, c').
                  (case demod ch of
                     None \<Rightarrow> Inl NullPointer
                   | Some FmDemod \<Rightarrow>
                       bindE (DemodulatorFm_iq_received (fm_demod ch) channelized) (\<lambda>(audio, fm').
                         Inr (audio, ch\<lparr>trans := tr', channelizer := Some c', fm_demod := fm'\<rparr>))
                   | Some AmDemod \<Rightarrow>
                       (let (audio, am') = DemodulatorAm_iq_received (am_demod ch) channelized
                        in Inr (audio, ch\<lparr>trans := tr', channelizer := Some c', am_demod := am'\<rparr>)))))
      else Inr ([], ch))"

definition Channel_enable :: "Channel \<Rightarrow> Channel" where
  "Channel_enable ch = ch\<lparr>enabled := True\<rparr>"

definition Channel_disable :: "Channel \<Rightarrow> Channel" where
  "Channel_disable ch = ch\<lparr>enabled := False\<rparr>"

definition isEnabled :: "Channel \<Rightarrow> bool" where
  "isEnabled ch = enabled ch"

subsection \<open>The receiver and the registry (class \<^verbatim>\<open>Ddr\<close>)\<close>

text \<open>
  The tuner class \<^verbatim>\<open>WbRxRtlSdr\<close>, the configuration class \<^verbatim>\<open>Async::Config\<close> and the
  base class \<^verbatim>\<open>LocalRxBase\<close> are outside the sources at hand; what \<^verbatim>\<open>Ddr.cpp\<close> uses
  of them is a parameter of the model. A tuner is seen through \<^verbatim>\<open>name()\<close>,
  \<^verbatim>\<open>centerFq()\<close> (a \<^verbatim>\<open>uint32_t\<close>) and \<^verbatim>\<open>sampleRate()\<close>.
\<close>

record Tuner =
  tuner_name :: string
  centerFq :: nat
  sampleRate :: nat

text \<open>
  \<^item> \<open>cfg\<close>: the configuration, from section and tag to the value string;
  \<^item> \<open>parse_double\<close>: the conversion \<^verbatim>\<open>getValue\<close> applies for a \<^verbatim>\<open>double\<close> variable
    (\<open>None\<close>: the string is not a number);
  \<^item> \<open>WbRxRtlSdr_instance\<close>: the tuner \<^verbatim>\<open>WbRxRtlSdr::instance(cfg, wbrx)\<close> returns
    (\<open>None\<close>: the null pointer);
  \<^item> \<open>LocalRxBase_initialize\<close>: the return value of \<^verbatim>\<open>LocalRxBase::initialize()\<close>;
  \<^item> \<open>filter_coeffs\<close>: the tables of \<^verbatim>\<open>DdrFilterCoeffs.h\<close>;
  \<^item> \<open>new_dec_is_null\<close>: whether the uninitialised \<^verbatim>\<open>dec\<close> of the \<^verbatim>\<open>Channelizer2400\<close>
    that \<^verbatim>\<open>Channel::initialize\<close> creates holds null.
\<close>

record Env =
  cfg :: "string \<times> string \<Rightarrow> string option"
  parse_double :: "string \<Rightarrow> real option"
  WbRxRtlSdr_instance :: "string \<Rightarrow> Tuner option"
  LocalRxBase_initialize :: bool
  filter_coeffs :: FilterCoeffs
  new_dec_is_null :: bool

definition getValue_double :: "Env \<Rightarrow> string \<Rightarrow> string \<Rightarrow> real option" where
  "getValue_double env sec tag =
     (case cfg env (sec, tag) of None \<Rightarrow> None | Some v \<Rightarrow> parse_double env v)"

record Ddr =
  ddr_name :: string            \<comment> \<open>\<^verbatim>\<open>name()\<close> of the base class\<close>
  channel :: "Channel option"
  rtl :: "Tuner option"
  fq :: real

text \<open>The static member \<^verbatim>\<open>ddr_map\<close>: from names to \<^verbatim>\<open>Ddr*\<close>; an object's address
  is a natural number.\<close>

type_synonym DdrMap = "string \<rightharpoonup> nat"

definition Ddr_find :: "DdrMap \<Rightarrow> string \<Rightarrow> nat option" where
  "Ddr_find ddr_map nm = (case ddr_map nm of Some p \<Rightarrow> Some p | None \<Rightarrow> None)"

definition Ddr_new :: "string \<Rightarrow> Ddr" where
  "Ddr_new nm = \<lparr>ddr_name = nm, channel = None, rtl = None, fq = 0\<rparr>"

text \<open>
  \<^verbatim>\<open>tunerFqChanged(center_fq)\<close>. The bound \<^verbatim>\<open>(rtl->sampleRate() / 2) - 12500\<close> is
  unsigned 32-bit arithmetic; \<^verbatim>\<open>setFqOffset\<close> takes an \<^verbatim>\<open>int\<close>, so the \<^verbatim>\<open>double\<close>
  \<^verbatim>\<open>new_offset\<close> is converted on the call.
\<close>

definition fit_bound :: "nat \<Rightarrow> nat" where
  "fit_bound R = (R div 2 + 2 ^ 32 - 12500) mod 2 ^ 32"

definition Ddr_tunerFqChanged :: "Ddr \<Rightarrow> nat \<Rightarrow> error + (Ddr \<times> event list)" where
  "Ddr_tunerFqChanged d center_fq =
     (case channel d of
        None \<Rightarrow> Inr (d, [])
      | Some ch \<Rightarrow>
          (let new_offset = fq d - real center_fq
           in case rtl d of
                None \<Rightarrow> Inl NullPointer
              | Some t \<Rightarrow>
                  if \<bar>new_offset\<bar> > real (fit_bound (sampleRate t))
                  then (if isEnabled ch
                        then Inr (d\<lparr>channel := Some (Channel_disable ch)\<rparr>,
                                  [WarnCouldNotFit (ddr_name d) (tuner_name t)])
                        else Inr (d, []))
                  else bindE (Channel_setFqOffset ch (double_to_int new_offset)) (\<lambda>ch'.
                         Inr (d\<lparr>channel := Some (Channel_enable ch')\<rparr>, []))))"

text \<open>The modulation selected by the string of the \<^verbatim>\<open>MODULATION\<close> variable, in the
  order of the \<^verbatim>\<open>if\<close> chain.\<close>

definition modulation_of :: "string \<Rightarrow> Modulation option" where
  "modulation_of modstr =
     (if modstr = ''FM'' then Some MOD_FM
      else if modstr = ''WBFM'' then Some MOD_WBFM
      else if modstr = ''AM'' then Some MOD_AM
      else None)"

text \<open>
  \<^verbatim>\<open>initialize()\<close> of the receiver at address \<open>this\<close>. The result is the return value,
  the registry, the receiver and the events, in order.
\<close>

definition Ddr_initialize ::
  "Env \<Rightarrow> DdrMap \<Rightarrow> nat \<Rightarrow> Ddr \<Rightarrow> error + (bool \<times> DdrMap \<times> Ddr \<times> event list)" where
  "Ddr_initialize env ddr_map this d =
     (if ddr_map (ddr_name d) \<noteq> None
      then Inr (False, ddr_map, d, [ErrNameNotUnique (ddr_name d)])
      else
        let ddr_map1 = ddr_map(ddr_name d \<mapsto> this)
        in case getValue_double env (ddr_name d) ''FQ'' of
             None \<Rightarrow> Inr (False, ddr_map1, d, [ErrFqNotSet (ddr_name d)])
           | Some f \<Rightarrow>
        let d1 = d\<lparr>fq := f\<rparr>
        in case cfg env (ddr_name d, ''WBRX'') of
             None \<Rightarrow> Inr (False, ddr_map1, d1, [ErrWbrxNotSet (ddr_name d)])
           | Some wbrx \<Rightarrow>
        (case WbRxRtlSdr_instance env wbrx of
             None \<Rightarrow> Inr (False, ddr_map1, d1\<lparr>rtl := None\<rparr>,
                          [ErrCouldNotCreateWbrx wbrx (ddr_name d)])
           | Some t \<Rightarrow>
        let d2 = d1\<lparr>rtl := Some t\<rparr>;
            ev = [RegisterDdr (tuner_name t) this]
        in bindE (to_int_checked (fq d2 - real (centerFq t))) (\<lambda>fq_offset.
           bindE (Channel_new (filter_coeffs env) fq_offset (sampleRate t)) (\<lambda>ch0.
           bindE (Channel_initialize (filter_coeffs env) (new_dec_is_null env) ch0)
             (\<lambda>(ok, ch1, ev1).
             if \<not> ok
             then Inr (False, ddr_map1, d2\<lparr>channel := None\<rparr>,
                       ev @ ev1 @ [ErrChannelInit (ddr_name d)])
             else
               let modstr = (case cfg env (ddr_name d, ''MODULATION'') of
                               None \<Rightarrow> ''FM'' | Some v \<Rightarrow> v)
               in case modulation_of modstr of
                    None \<Rightarrow> Inr (False, ddr_map1, d2\<lparr>channel := None\<rparr>,
                                 ev @ ev1 @ [ErrUnknownModulation modstr (ddr_name d)])
                  | Some m \<Rightarrow>
                      bindE (Channel_setModulation (filter_coeffs env) ch1 m) (\<lambda>ch2.
                        if \<not> LocalRxBase_initialize env
                        then Inr (False, ddr_map1, d2\<lparr>channel := None\<rparr>, ev @ ev1)
                        else
                          bindE (Ddr_tunerFqChanged (d2\<lparr>channel := Some ch2\<rparr>) (centerFq t))
                            (\<lambda>(d3, ev3). Inr (True, ddr_map1, d3, ev @ ev1 @ ev3))))))))"

text \<open>The destructor \<^verbatim>\<open>~Ddr()\<close>: the registry and the events after it.\<close>

definition Ddr_destroy :: "DdrMap \<Rightarrow> nat \<Rightarrow> Ddr \<Rightarrow> DdrMap \<times> event list" where
  "Ddr_destroy ddr_map this d =
     (let ev = (case rtl d of None \<Rightarrow> [] | Some t \<Rightarrow> [UnregisterDdr (tuner_name t) this])
      in (if ddr_map (ddr_name d) \<noteq> None
          then ddr_map(ddr_name d := None)
          else ddr_map,
          ev))"

subsection \<open>Auxiliary notions for the properties of the FM demodulator\<close>

text \<open>The pair \<open>(i\<^sub>p\<^sub>r\<^sub>e\<^sub>v, q\<^sub>p\<^sub>r\<^sub>e\<^sub>v)\<close> in force when sample \<open>k\<close> of a batch is demodulated:
  the stored pair for the first sample, the normalised sample \<open>k - 1\<close> afterwards.\<close>

fun prev_iq :: "real \<times> real \<Rightarrow> complex list \<Rightarrow> nat \<Rightarrow> real \<times> real" where
  "prev_iq st samples 0 = st"
| "prev_iq st samples (Suc k) =
     (Re (samples ! k / complex_of_real (cmod (samples ! k))),
      Im (samples ! k / complex_of_real (cmod (samples ! k))))"

text \<open>The audio decimation chain: the wideband stage when \<^verbatim>\<open>wb_mode\<close> is set, then the
  32k to 16k stage \<^verbatim>\<open>audio_dec\<close>.\<close>

definition audio_chain :: "DemodulatorFm \<Rightarrow> real list \<Rightarrow> error + (real list \<times> DemodulatorFm)" where
  "audio_chain d audio =
     (if wb_mode d
      then bindE (decimate (audio_dec_wb d) [] audio) (\<lambda>(dec_audio1, wb').
           bindE (decimate (audio_dec d) [] dec_audio1) (\<lambda>(dec_audio, ad').
             Inr (dec_audio, d\<lparr>audio_dec_wb := wb', audio_dec := ad'\<rparr>)))
      else bindE (decimate (audio_dec d) [] audio) (\<lambda>(dec_audio, ad').
             Inr (dec_audio, d\<lparr>audio_dec := ad'\<rparr>)))"

subsection \<open>Auxiliary notions for the properties of the channelizers\<close>

text \<open>A run of the stages \<open>rs\<close> of a cascade, one after the other, the last one
  writing to \<^verbatim>\<open>out\<close>; for a cascade \<open>m\<close> this is \<open>MS_decimate\<close> on \<open>MS_stages m\<close>.\<close>

fun run_stages ::
  "('r \<Rightarrow> 'a::real_vector Decimator) \<Rightarrow> 'r list \<Rightarrow> 'a list \<Rightarrow> 'a list
     \<Rightarrow> error + ('a list \<times> ('r \<Rightarrow> 'a Decimator))" where
  "run_stages P [] out inp = Inr (inp, P)"
| "run_stages P [r] out inp = decimate_ref P r out inp"
| "run_stages P (r # rs) out inp =
     bindE (decimate_ref P r [] inp) (\<lambda>(s, P1). run_stages P1 rs out s)"

text \<open>The decimation factor each member is constructed with
  (\<^verbatim>\<open>dec_960k_192k(5, \<dots>)\<close> and so on).\<close>

fun fact960 :: "dec960 \<Rightarrow> nat" where
  "fact960 dec_960k_192k = 5"
| "fact960 dec_192k_64k = 3"
| "fact960 dec_64k_32k = 2"
| "fact960 dec_192k_48k = 4"
| "fact960 dec_48k_16k = 3"
| "fact960 ch_filt = 1"
| "fact960 ch_filt_narr = 1"
| "fact960 ch_filt_6k = 1"

fun fact2400 :: "dec2400 \<Rightarrow> nat" where
  "fact2400 dec_2400k_800k = 3"
| "fact2400 dec_800k_160k = 5"
| "fact2400 dec_160k_32k = 5"
| "fact2400 dec_32k_16k = 2"
| "fact2400 ch_filt' = 1"
| "fact2400 ch_filt_narr' = 1"
| "fact2400 ch_filt_6k' = 1"

definition all_dec960 :: "dec960 list" where
  "all_dec960 = [dec_960k_192k, dec_192k_64k, dec_64k_32k, dec_192k_48k, dec_48k_16k,
                 ch_filt, ch_filt_narr, ch_filt_6k]"

definition all_dec2400 :: "dec2400 list" where
  "all_dec2400 = [dec_2400k_800k, dec_800k_160k, dec_160k_32k, dec_32k_16k,
                  ch_filt', ch_filt_narr', ch_filt_6k']"

text \<open>A channelizer whose decimators have the factors they were constructed with
  (no member function of \<^verbatim>\<open>Decimator\<close> that a channelizer calls changes \<^verbatim>\<open>dec_fact\<close>).\<close>

fun factors_as_constructed :: "Channelizer \<Rightarrow> bool" where
  "factors_as_constructed (Channelizer960 c) =
     list_all (\<lambda>r. dec_fact (decs c r) = fact960 r) all_dec960"
| "factors_as_constructed (Channelizer2400 c) =
     list_all (\<lambda>r. dec_fact (decs c r) = fact2400 r) all_dec2400"

text \<open>A channelizer each of whose filters has at least as many taps as its factor, so
  that \<^verbatim>\<open>assert(taps >= dec_fact)\<close> holds.\<close>

fun enough_taps :: "Channelizer \<Rightarrow> bool" where
  "enough_taps (Channelizer960 c) =
     list_all (\<lambda>r. dec_fact (decs c r) \<le> taps (decs c r)) all_dec960"
| "enough_taps (Channelizer2400 c) =
     list_all (\<lambda>r. dec_fact (decs c r) \<le> taps (decs c r)) all_dec2400"

text \<open>The overall decimation of each bandwidth mode as the specification tabulates it:
  for the 960 kHz tuner Wide 5, 20 kHz 30, 10 kHz 60, 6 kHz 60; for the 2.4 MHz tuner
  Wide 15, 20 kHz 75, 10 kHz 150, 6 kHz 150.\<close>

fun spec_decFact :: "nat \<Rightarrow> Bandwidth \<Rightarrow> nat" where
  "spec_decFact rate BW_WIDE = (if rate = 960000 then 5 else 15)"
| "spec_decFact rate BW_20K = (if rate = 960000 then 30 else 75)"
| "spec_decFact rate BW_10K = (if rate = 960000 then 60 else 150)"
| "spec_decFact rate BW_6K = (if rate = 960000 then 60 else 150)"

text \<open>Tables with six coefficients each: a concrete parameter for closed examples.\<close>

definition fc6 :: FilterCoeffs where
  "fc6 = \<lparr>coeff_dec_audio_32k_16k = [1, 1, 1, 1, 1, 1],
          coeff_dec_160k_32k = [1, 1, 1, 1, 1, 1],
          coeff_dec_192k_32k = [1, 1, 1, 1, 1, 1],
          coeff_dec_32k_16k = [1, 1, 1, 1, 1, 1],
          coeff_dec_960k_192k = [1, 1, 1, 1, 1, 1],
          coeff_dec_192k_64k = [1, 1, 1, 1, 1, 1],
          coeff_dec_64k_32k = [1, 1, 1, 1, 1, 1],
          coeff_dec_192k_48k = [1, 1, 1, 1, 1, 1],
          coeff_dec_48k_16k = [1, 1, 1, 1, 1, 1],
          coeff_dec_2400k_800k = [1, 1, 1, 1, 1, 1],
          coeff_dec_800k_160k = [1, 1, 1, 1, 1, 1],
          coeff_25k_channel = [1, 1, 1, 1, 1, 1],
          coeff_12k5_channel = [1, 1, 1, 1, 1, 1],
          coeff_ssb_channel = [1, 1, 1, 1, 1, 1]\<rparr>"

text \<open>A receiver on a 2.4 MHz tuner centred at 100 MHz, in FM mode, for closed examples;
  the parameters are its frequency \<^verbatim>\<open>fq\<close> and the \<^verbatim>\<open>enabled\<close> bit of its channel. Its
  channelizer is the one a construction that found \<^verbatim>\<open>dec\<close> null yields.\<close>

definition example_channel :: "bool \<Rightarrow> Channel" where
  "example_channel en =
     \<lparr>sample_rate = 2400000,
      channelizer = Some (Channelizer2400 (projr (Channelizer2400_new fc6 True))),
      fm_demod = DemodulatorFm_new fc6 32000 5000,
      am_demod = DemodulatorAm_new fc6,
      demod = Some FmDemod,
      trans = \<lparr>samp_rate = 2400000, exp_lut = [], tr_n = 0\<rparr>,
      enabled = en\<rparr>"

definition example_ddr :: "real \<Rightarrow> bool \<Rightarrow> Ddr" where
  "example_ddr f en =
     \<lparr>ddr_name = ''RX1'',
      channel = Some (example_channel en),
      rtl = Some \<lparr>tuner_name = ''WBRX1'', centerFq = 100000000, sampleRate = 2400000\<rparr>,
      fq = f\<rparr>"

text \<open>An environment for closed examples: the section \<^verbatim>\<open>RX1\<close> sets \<^verbatim>\<open>FQ\<close>, \<^verbatim>\<open>WBRX\<close>
  and a modulation that does not exist; the section \<^verbatim>\<open>RX2\<close> sets nothing.\<close>

definition example_env :: Env where
  "example_env =
     \<lparr>cfg = map_of [((''RX1'', ''FQ''), ''100025000''),
                    ((''RX1'', ''WBRX''), ''WBRX1''),
                    ((''RX1'', ''MODULATION''), ''SSB'')],
      parse_double = (\<lambda>v. if v = ''100025000'' then Some 100025000 else None),
      WbRxRtlSdr_instance =
        (\<lambda>w. if w = ''WBRX1''
             then Some \<lparr>tuner_name = ''WBRX1'', centerFq = 100000000, sampleRate = 2400000\<rparr>
             else None),
      LocalRxBase_initialize = True,
      filter_coeffs = fc6,
      new_dec_is_null = True\<rparr>"

section \<open>Properties\<close>

subsection \<open>The FIR decimator\<close>

lemma bindE_simps [simp]:
  "bindE (Inl e) f = Inl e"
  "bindE (Inr x) f = f x"
  by (simp_all add: bindE_def)

lemma delay_line_drop:
  "delay_line M T z src (Suc j) = delay_line M T (shift_in M T z (take M src)) (drop M src) j"
proof (induction j)
  case 0
  show ?case by simp
next
  case (Suc j)
  have "drop (Suc j * M) src = drop (j * M) (drop M src)"
    by (simp add: add.commute)
  with Suc show ?case by simp
qed

lemma decimate_loop_run:
  assumes "0 < M"
  shows "length src = k * M \<Longrightarrow>
         decimate_loop M T cs z src out =
           Inr (out @ map (\<lambda>j. fir_sum T cs (delay_line M T z src (Suc j))) [0..<k],
                delay_line M T z src k)"
proof (induction k arbitrary: z src out)
  case 0
  then show ?case by (simp add: decimate_loop.simps)
next
  case (Suc k)
  let ?z' = "shift_in M T z (take M src)"
  from Suc.prems assms have len: "\<not> length src < M" and ne: "src \<noteq> []" by auto
  from Suc.prems have dlen: "length (drop M src) = k * M" by simp
  have step: "decimate_loop M T cs z src out =
              decimate_loop M T cs ?z' (drop M src) (out @ [fir_sum T cs ?z'])"
    using assms len ne by (subst decimate_loop.simps) (simp add: Let_def)
  have first: "delay_line M T z src (Suc 0) = ?z'"
    by simp
  have maps: "map (\<lambda>j. fir_sum T cs (delay_line M T z src (Suc j))) [0..<Suc k]
        = fir_sum T cs ?z' #
          map (\<lambda>j. fir_sum T cs (delay_line M T ?z' (drop M src) (Suc j))) [0..<k]"
    by (simp only: map_upt_Suc first delay_line_drop[of M T z src "Suc _"])
  show ?case
    unfolding step Suc.IH[OF dlen] maps
    by (simp add: delay_line_drop[symmetric] del: delay_line.simps)
qed

lemma Decimator_new_ok: "T \<le> length cs \<Longrightarrow> Decimator_ok (Decimator_new M cs T)"
  by (simp add: Decimator_ok_def Decimator_new_def setDecimatorParams_def)

lemma setGain_ok: "Decimator_ok d \<Longrightarrow> Decimator_ok (setGain d g)"
  by (simp add: Decimator_ok_def setGain_def)

lemma fir_sum_sum: "fir_sum T cs z = (\<Sum>t<T. (cs ! t) *\<^sub>R (z ! t))"
  unfolding fir_sum_def
  by (induction T) simp_all

lemma delay_line_closed:
  assumes "M \<le> T" and "length z = T"
  shows "j * M \<le> length inp \<Longrightarrow> delay_line M T z inp j = take T (rev (take (j * M) inp) @ z)"
proof (induction j)
  case 0
  show ?case using assms by simp
next
  case (Suc j)
  then have le: "j * M \<le> length inp" and blk: "length (take M (drop (j * M) inp)) = M"
    by simp_all
  have "Suc j * M = j * M + M" by simp
  then have split: "take (Suc j * M) inp = take (j * M) inp @ take M (drop (j * M) inp)"
    by (simp only: take_add)
  have "delay_line M T z inp (Suc j) =
          rev (take M (drop (j * M) inp)) @ take (T - M) (take T (rev (take (j * M) inp) @ z))"
    using Suc.IH[OF le] by (simp add: shift_in_def)
  also have "\<dots> = take T (rev (take (Suc j * M) inp) @ z)"
    unfolding split using blk assms(1) by (simp add: min_def)
  finally show ?case .
qed

text \<open>
  \<^bold>\<open>C1.\<close> A decimator with factor \<open>M \<ge> 1\<close> and \<open>T \<ge> M\<close> taps, given a batch of \<open>k \<cdot> M\<close>
  samples with \<open>k > 0\<close>, returns without a failed assertion; whatever \<^verbatim>\<open>out\<close> held
  before is gone; the output has exactly \<open>k\<close> samples, which is \<open>in.size() / M\<close>. For
  output \<open>j\<close> let \<open>z\<close> be the first \<open>T\<close> entries of the samples consumed up to and
  including block \<open>j\<close>, newest first, followed by the old delay line. Then \<open>z\<close> has \<open>T\<close>
  entries; its first \<open>M\<close> are block \<open>j\<close>, the newest sample at index 0; the rest are the
  first \<open>T - M\<close> entries of the line before that block; and output \<open>j\<close> is the sum over
  all \<open>T\<close> taps \<open>\<Sum>\<^bsub>t<T\<^esub> coeff[t] \<cdot> z[t]\<close>. The decimator keeps its factor, tap count and
  coefficients, and its delay line afterwards is the one after the last block.
\<close>

theorem decimate_fir_output:
  assumes "Decimator_ok d" and "dec_fact d = M" and "taps d = T" and "M \<le> T"
      and "0 < M" and "0 < k" and "length inp = k * M"
  shows "\<exists>out' d'. decimate d out inp = Inr (out', d')
           \<and> length out' = k
           \<and> length out' = length inp div M
           \<and> (\<forall>j<k. let z = take T (rev (take (Suc j * M) inp) @ p_Z d) in
                    length z = T
                  \<and> take M z = rev (take M (drop (j * M) inp))
                  \<and> drop M z = take (T - M) (take T (rev (take (j * M) inp) @ p_Z d))
                  \<and> out' ! j = (\<Sum>t<T. (coeff d ! t) *\<^sub>R (z ! t)))
           \<and> d' = d\<lparr>p_Z := take T (rev inp @ p_Z d)\<rparr>
           \<and> Decimator_ok d'"
proof -
  let ?dl = "\<lambda>j. delay_line M T (p_Z d) inp j"
  let ?z = "\<lambda>j. take T (rev (take (j * M) inp) @ p_Z d)"
  let ?out = "map (\<lambda>j. fir_sum T (coeff d) (?dl (Suc j))) [0..<k]"
  have z0: "length (p_Z d) = T"
    using assms(1,3) by (simp add: Decimator_ok_def)
  have closed: "\<And>j. j \<le> k \<Longrightarrow> ?dl j = ?z j"
  proof -
    fix j assume "j \<le> k"
    then have "j * M \<le> length inp" using assms(7) by simp
    with assms(4) z0 show "?dl j = ?z j" by (rule delay_line_closed)
  qed
  have len: "\<And>j. j \<le> k \<Longrightarrow> length (?z j) = T"
    using z0 by simp
  have run: "decimate_loop M T (coeff d) (p_Z d) inp [] = Inr (?out, ?dl k)"
    using decimate_loop_run[OF assms(5) assms(7), of T "coeff d" "p_Z d" "[]"] by simp
  have zk: "?z k = take T (rev inp @ p_Z d)"
    using assms(7) by simp
  have dec: "decimate d out inp = Inr (?out, d\<lparr>p_Z := take T (rev inp @ p_Z d)\<rparr>)"
    using assms run closed[of k] zk by (simp add: decimate_def)
  have each: "\<forall>j<k. let z = ?z (Suc j) in
                    length z = T
                  \<and> take M z = rev (take M (drop (j * M) inp))
                  \<and> drop M z = take (T - M) (?z j)
                  \<and> ?out ! j = (\<Sum>t<T. (coeff d ! t) *\<^sub>R (z ! t))"
  proof (intro allI impI)
    fix j assume j: "j < k"
    then have sj: "Suc j \<le> k" and jk: "j \<le> k" by simp_all
    from j assms(7) have "Suc j * M \<le> length inp"
      by (metis Suc_leI mult_le_mono1)
    then have blk: "length (take M (drop (j * M) inp)) = M" by simp
    have step: "?z (Suc j) = rev (take M (drop (j * M) inp)) @ take (T - M) (?z j)"
      using closed[OF sj] closed[OF jk] by (simp add: shift_in_def)
    have o: "?out ! j = (\<Sum>t<T. (coeff d ! t) *\<^sub>R (?z (Suc j) ! t))"
      using j closed[OF sj] by (simp add: fir_sum_sum)
    have t: "take M (?z (Suc j)) = rev (take M (drop (j * M) inp))"
      unfolding step using blk by simp
    have dr: "drop M (?z (Suc j)) = take (T - M) (?z j)"
      unfolding step using blk by simp
    from len[OF sj] t dr o
    show "let z = ?z (Suc j) in
                    length z = T
                  \<and> take M z = rev (take M (drop (j * M) inp))
                  \<and> drop M z = take (T - M) (?z j)
                  \<and> ?out ! j = (\<Sum>t<T. (coeff d ! t) *\<^sub>R (z ! t))"
      unfolding Let_def by (intro conjI)
  qed
  have ok: "Decimator_ok (d\<lparr>p_Z := take T (rev inp @ p_Z d)\<rparr>)"
    using assms(1,3) z0 by (simp add: Decimator_ok_def)
  have l1: "length ?out = k" by simp
  have l2: "length ?out = length inp div M" using assms by simp
  from dec l1 l2 each ok show ?thesis by blast
qed


theorem decimate_fir_output_witness:
  "\<exists>out'. decimate (Decimator_new 2 [1, 2, 3] 3) [7] [1, 2, 3, 4 :: real]
             = Inr (out', (Decimator_new 2 [1, 2, 3] 3)\<lparr>p_Z := [4, 3, 2]\<rparr>)
         \<and> length out' = 2 \<and> out' ! 0 = 4 \<and> out' ! 1 = 16"
proof -
  let ?d = "Decimator_new 2 [1, 2, 3] 3 :: real Decimator"
  let ?inp = "[1, 2, 3, 4 :: real]"
  have ok: "Decimator_ok ?d"
    by (rule Decimator_new_ok) simp
  have d: "dec_fact ?d = 2" "taps ?d = 3" "p_Z ?d = [0, 0, 0]" "coeff ?d = [1, 2, 3]"
    by (simp_all add: Decimator_new_def setDecimatorParams_def numeral_3_eq_3)
  have z1: "take 3 (rev (take (Suc 0 * 2) ?inp) @ [0, 0, 0]) = [2, 1, 0]"
    by simp
  have z2: "take 3 (rev (take (Suc 1 * 2) ?inp) @ [0, 0, 0]) = [4, 3, 2]"
    by simp
  have zk: "take 3 (rev ?inp @ [0, 0, 0]) = [4, 3, 2]"
    by simp
  have f: "(\<Sum>t<3. ([1, 2, 3] ! t) *\<^sub>R ([2, 1, 0 :: real] ! t)) = 4"
          "(\<Sum>t<3. ([1, 2, 3] ! t) *\<^sub>R ([4, 3, 2 :: real] ! t)) = 16"
    by (simp_all add: numeral_3_eq_3)
  have h: "(2::nat) \<le> 3" "(0::nat) < 2" "length ?inp = 2 * 2"
    by simp_all
  from decimate_fir_output[OF ok d(1) d(2) h(1) h(2) h(2) h(3), of "[7]"]
  obtain out' where
        a: "decimate ?d [7] ?inp = Inr (out', ?d\<lparr>p_Z := take 3 (rev ?inp @ p_Z ?d)\<rparr>)"
    and b: "length out' = 2"
    and c: "\<forall>j<2. let z = take 3 (rev (take (Suc j * 2) ?inp) @ p_Z ?d) in
                    length z = 3
                  \<and> take 2 z = rev (take 2 (drop (j * 2) ?inp))
                  \<and> drop 2 z = take (3 - 2) (take 3 (rev (take (j * 2) ?inp) @ p_Z ?d))
                  \<and> out' ! j = (\<Sum>t<3. (coeff ?d ! t) *\<^sub>R (z ! t))"
    by blast
  have lt: "(0::nat) < 2" "(1::nat) < 2" by simp_all
  from c[unfolded Let_def, rule_format, OF lt(1)]
  have "out' ! 0 = (\<Sum>t<3. (coeff ?d ! t) *\<^sub>R
                  (take 3 (rev (take (Suc 0 * 2) ?inp) @ p_Z ?d) ! t))"
    by (elim conjE)
  then have c0: "out' ! 0 = 4"
    by (simp only: d z1 f)
  from c[unfolded Let_def, rule_format, OF lt(2)]
  have "out' ! 1 = (\<Sum>t<3. (coeff ?d ! t) *\<^sub>R
                  (take 3 (rev (take (Suc 1 * 2) ?inp) @ p_Z ?d) ! t))"
    by (elim conjE)
  then have c1: "out' ! 1 = 16"
    by (simp only: d z2 f)
  from a have "decimate ?d [7] ?inp = Inr (out', ?d\<lparr>p_Z := [4, 3, 2]\<rparr>)"
    by (simp only: d zk)
  with b c0 c1 show ?thesis by blast
qed

subsection \<open>The decimation factors of the channelizers\<close>

lemma MS_decFact_prod:
  "MS_decFact P m = prod_list (map (\<lambda>r. dec_fact (P r)) (MS_stages m))"
  by (cases m) simp_all

lemma factors960_new: "factors_as_constructed (Channelizer960 (Channelizer960_new fc))"
  by (simp add: Channelizer960_new_def Channelizer960_setBw_def all_dec960_def
      Decimator_new_def setDecimatorParams_def)

lemma factors2400_new:
  "Channelizer2400_new fc nl = Inr c \<Longrightarrow> factors_as_constructed (Channelizer2400 c)"
  by (auto simp add: Channelizer2400_new_def Channelizer2400_setBw_def all_dec2400_def
      Decimator_new_def setDecimatorParams_def split: if_splits)

lemma Channelizer2400_new_null:
  "\<exists>c. Channelizer2400_new fc True = Inr c \<and> projr (Channelizer2400_new fc True) = c"
  by (simp add: Channelizer2400_new_def)

lemma decs_setBw960 [simp]: "decs (Channelizer960_setBw c bw) = decs c"
  by (cases bw) (simp_all add: Channelizer960_setBw_def)

lemma decs_setBw2400 [simp]: "decs (Channelizer2400_setBw c bw) = decs c"
  by (cases bw) (simp_all add: Channelizer2400_setBw_def)

lemma factors_setBw: "factors_as_constructed (setBw c bw) = factors_as_constructed c"
  by (cases c) simp_all

lemma all960: "list_all Q all_dec960 = (\<forall>r. Q r)"
proof
  assume a: "list_all Q all_dec960"
  show "\<forall>r. Q r"
  proof
    fix r show "Q r" using a by (cases r) (simp_all add: all_dec960_def)
  qed
next
  assume "\<forall>r. Q r" then show "list_all Q all_dec960" by (simp add: list_all_iff)
qed

lemma all2400: "list_all Q all_dec2400 = (\<forall>r. Q r)"
proof
  assume a: "list_all Q all_dec2400"
  show "\<forall>r. Q r"
  proof
    fix r show "Q r" using a by (cases r) (simp_all add: all_dec2400_def)
  qed
next
  assume "\<forall>r. Q r" then show "list_all Q all_dec2400" by (simp add: list_all_iff)
qed

text \<open>
  \<^bold>\<open>C2.\<close> For either channelizer and every bandwidth mode, the cascade that \<^verbatim>\<open>setBw\<close>
  selects has as \<^verbatim>\<open>decFact()\<close> the product of the factors of its stages; this is the
  value the specification tabulates for the tuner rate and the mode; and
  \<^verbatim>\<open>chSampRate()\<close> times \<^verbatim>\<open>decFact()\<close> is the tuner rate, 960000 or 2400000, exactly.
\<close>

theorem setBw_decFact:
  assumes "factors_as_constructed c"
  shows "\<exists>f r. decFact (setBw c bw) = Inr f
           \<and> f = prod_list (stageFactors (setBw c bw))
           \<and> f = spec_decFact (tunerRate c) bw
           \<and> chSampRate (setBw c bw) = Inr r
           \<and> r * f = tunerRate c
           \<and> tunerRate (setBw c bw) = tunerRate c"
proof (cases c)
  case (Channelizer960 o1)
  with assms have f: "\<And>r. dec_fact (decs o1 r) = fact960 r"
    by (simp add: all960)
  show ?thesis
    unfolding Channelizer960
    by (cases bw)
       (simp_all add: Channelizer960_setBw_def Obj_decFact_def Obj_chSampRate_def f)
next
  case (Channelizer2400 o2)
  with assms have f: "\<And>r. dec_fact (decs o2 r) = fact2400 r"
    by (simp add: all2400)
  show ?thesis
    unfolding Channelizer2400
    by (cases bw)
       (simp_all add: Channelizer2400_setBw_def Obj_decFact_def Obj_chSampRate_def f)
qed

theorem setBw_decFact_witness:
  "\<exists>c. Channelizer2400_new fc6 True = Inr c
      \<and> decFact (setBw (Channelizer2400 c) BW_10K) = Inr 150
      \<and> chSampRate (setBw (Channelizer2400 c) BW_10K) = Inr 16000
      \<and> stageFactors (setBw (Channelizer2400 c) BW_10K) = [3, 5, 5, 2, 1]"
proof -
  obtain c0 where c0: "Channelizer2400_new fc6 True = Inr c0"
    using Channelizer2400_new_null by blast
  let ?c = "Channelizer2400 c0"
  have h: "factors_as_constructed ?c"
    using c0 by (rule factors2400_new)
  from setBw_decFact[OF h, of BW_10K]
  obtain f r where a: "decFact (setBw ?c BW_10K) = Inr f"
    and b: "f = spec_decFact (tunerRate ?c) BW_10K"
    and c: "chSampRate (setBw ?c BW_10K) = Inr r" and d: "r * f = tunerRate ?c"
    by blast
  from b have f: "f = 150" by simp
  with d have "r = 16000" by simp
  moreover have "stageFactors (setBw ?c BW_10K) = [3, 5, 5, 2, 1]"
    using c0 by (auto simp add: Channelizer2400_new_def Channelizer2400_setBw_def
      Decimator_new_def setDecimatorParams_def)
  ultimately show ?thesis using a c f c0 by simp
qed

subsection \<open>Batch lengths along a cascade\<close>

lemma decimate_ok:
  assumes "0 < dec_fact d" and "dec_fact d \<le> taps d" and "length inp mod dec_fact d = 0"
  shows "\<exists>out' z'. decimate d out inp = Inr (out', d\<lparr>p_Z := z'\<rparr>)
           \<and> length out' = length inp div dec_fact d"
proof -
  from assms(3) have len: "length inp = (length inp div dec_fact d) * dec_fact d"
    by auto
  have "\<exists>out'. decimate_loop (dec_fact d) (taps d) (coeff d) (p_Z d) inp [] =
          Inr (out', delay_line (dec_fact d) (taps d) (p_Z d) inp (length inp div dec_fact d))
          \<and> length out' = length inp div dec_fact d"
    by (subst decimate_loop_run[OF assms(1) len, of "taps d" "coeff d" "p_Z d" "[]"]) simp
  then show ?thesis using assms by (auto simp add: decimate_def)
qed

lemma decimate_Inr_batch:
  "decimate d out inp = Inr x \<Longrightarrow> length inp mod dec_fact d = 0"
  by (simp add: decimate_def split: if_splits)

lemma decimate_ref_ok:
  assumes "0 < dec_fact (P r)" and "dec_fact (P r) \<le> taps (P r)"
      and "length inp mod dec_fact (P r) = 0"
  shows "\<exists>out' P'. decimate_ref P r out inp = Inr (out', P')
           \<and> length out' = length inp div dec_fact (P r)
           \<and> (\<forall>q. dec_fact (P' q) = dec_fact (P q) \<and> taps (P' q) = taps (P q))"
proof -
  from decimate_ok[where d="P r" and inp=inp and out=out, OF assms] obtain out' z'
    where "decimate (P r) out inp = Inr (out', (P r)\<lparr>p_Z := z'\<rparr>)"
      and "length out' = length inp div dec_fact (P r)" by blast
  then show ?thesis by (simp add: decimate_ref_def)
qed

lemma MS_decimate_run_stages:
  "MS_decimate P m out inp = run_stages P (MS_stages m) out inp"
  by (cases m) simp_all

lemma run_stages_Cons:
  "rs \<noteq> [] \<Longrightarrow> run_stages P (r # rs) out inp =
     bindE (decimate_ref P r [] inp) (\<lambda>(s, P1). run_stages P1 rs out s)"
  by (cases rs) simp_all

lemma run_stages_ok:
  assumes "rs \<noteq> []"
  shows "\<forall>r\<in>set rs. 0 < dec_fact (P r) \<and> dec_fact (P r) \<le> taps (P r) \<Longrightarrow>
         length inp mod prod_list (map (\<lambda>r. dec_fact (P r)) rs) = 0 \<Longrightarrow>
         \<exists>out' P'. run_stages P rs out inp = Inr (out', P')
           \<and> length out' = length inp div prod_list (map (\<lambda>r. dec_fact (P r)) rs)
           \<and> (\<forall>q. dec_fact (P' q) = dec_fact (P q) \<and> taps (P' q) = taps (P q))"
  using assms
proof (induction rs arbitrary: P inp)
  case Nil
  then show ?case by simp
next
  case (Cons r rs)
  let ?M = "dec_fact (P r)"
  let ?N = "prod_list (map (\<lambda>r. dec_fact (P r)) rs)"
  from Cons.prems have M: "0 < ?M" "?M \<le> taps (P r)" by simp_all
  from Cons.prems have dv: "?M * ?N dvd length inp" by (simp add: mod_eq_0_iff_dvd)
  then have dvM: "length inp mod ?M = 0" by (auto simp: mod_eq_0_iff_dvd elim: dvd_mult_left)
  show ?case
  proof (cases "rs = []")
    case True
    from decimate_ref_ok[where P=P and r=r and inp=inp and out=out, OF M dvM] True show ?thesis by simp
  next
    case False
    from decimate_ref_ok[where P=P and r=r and inp=inp and out="[]", OF M dvM] obtain s P1
      where run1: "decimate_ref P r [] inp = Inr (s, P1)"
        and len1: "length s = length inp div ?M"
        and same: "\<forall>q. dec_fact (P1 q) = dec_fact (P q) \<and> taps (P1 q) = taps (P q)"
      by blast
    from same have N1: "prod_list (map (\<lambda>r. dec_fact (P1 r)) rs) = ?N" by simp
    from dv M(1) have "?N dvd length inp div ?M"
      by (metis dvd_div_iff_mult dvd_mult_left less_numeral_extra(3) mult.commute)
    with len1 N1 have dv1: "length s mod prod_list (map (\<lambda>r. dec_fact (P1 r)) rs) = 0"
      by (simp add: mod_eq_0_iff_dvd)
    from Cons.prems same
    have ok1: "\<forall>r\<in>set rs. 0 < dec_fact (P1 r) \<and> dec_fact (P1 r) \<le> taps (P1 r)" by simp
    from Cons.IH[OF ok1 dv1 False] obtain out' P'
      where run2: "run_stages P1 rs out s = Inr (out', P')"
        and len2: "length out' = length s div prod_list (map (\<lambda>r. dec_fact (P1 r)) rs)"
        and same2: "\<forall>q. dec_fact (P' q) = dec_fact (P1 q) \<and> taps (P' q) = taps (P1 q)"
      by blast
    have "run_stages P (r # rs) out inp = Inr (out', P')"
      using False run1 run2 by (simp add: run_stages_Cons)
    moreover have "length out' = length inp div (?M * ?N)"
      using len2 len1 N1 by (simp add: div_mult2_eq)
    ultimately show ?thesis using same same2 by simp
  qed
qed

lemma stage_sizes_multiples:
  "\<forall>M\<in>set Ms. 0 < M \<Longrightarrow> len mod prod_list Ms = 0 \<Longrightarrow>
   list_all2 (\<lambda>M l. l mod M = 0) Ms (stage_sizes Ms len)"
proof (induction Ms arbitrary: len)
  case Nil
  show ?case by simp
next
  case (Cons M Ms)
  from Cons.prems have M: "0 < M" and dv: "M * prod_list Ms dvd len"
    by (simp_all add: mod_eq_0_iff_dvd)
  from dv have a: "len mod M = 0" by (auto simp: mod_eq_0_iff_dvd elim: dvd_mult_left)
  from dv M have "prod_list Ms dvd len div M"
    by (metis dvd_div_iff_mult dvd_mult_left less_numeral_extra(3) mult.commute)
  then have "(len div M) mod prod_list Ms = 0" by (simp add: mod_eq_0_iff_dvd)
  with Cons.IH[of "len div M"] Cons.prems have "list_all2 (\<lambda>M l. l mod M = 0) Ms (stage_sizes Ms (len div M))"
    by simp
  with a show ?case by simp
qed


lemma MS_stages_nonempty: "MS_stages m \<noteq> []"
  by (cases m) simp_all

lemma prod_list_pos: "\<forall>M\<in>set Ms. 0 < M \<Longrightarrow> 0 < prod_list Ms" for Ms :: "nat list"
  by (induction Ms) simp_all

lemma Obj_iq_received_ok:
  assumes m: "dec c = Some m"
      and ok: "\<forall>r. 0 < dec_fact (decs c r) \<and> dec_fact (decs c r) \<le> taps (decs c r)"
      and len: "length inp = k * MS_decFact (decs c) m"
  shows "\<exists>out' P'. Obj_iq_received c out inp = Inr (out', c\<lparr>decs := P'\<rparr>)
           \<and> length out' = k
           \<and> (\<forall>q. dec_fact (P' q) = dec_fact (decs c q) \<and> taps (P' q) = taps (decs c q))
           \<and> list_all2 (\<lambda>M l. l mod M = 0)
                (map (\<lambda>r. dec_fact (decs c r)) (MS_stages m))
                (stage_sizes (map (\<lambda>r. dec_fact (decs c r)) (MS_stages m)) (length inp))"
proof -
  let ?Ms = "map (\<lambda>r. dec_fact (decs c r)) (MS_stages m)"
  have pos: "\<forall>M\<in>set ?Ms. 0 < M" using ok by simp
  then have f: "0 < prod_list ?Ms" by (rule prod_list_pos)
  have dv: "length inp mod prod_list ?Ms = 0"
    using len by (simp add: MS_decFact_prod)
  have ok': "\<forall>r\<in>set (MS_stages m). 0 < dec_fact (decs c r) \<and> dec_fact (decs c r) \<le> taps (decs c r)"
    using ok by simp
  from run_stages_ok[OF MS_stages_nonempty ok' dv, of out] obtain out' P'
    where run: "run_stages (decs c) (MS_stages m) out inp = Inr (out', P')"
      and l: "length out' = length inp div prod_list ?Ms"
      and same: "\<forall>q. dec_fact (P' q) = dec_fact (decs c q) \<and> taps (P' q) = taps (decs c q)"
    by blast
  have "Obj_iq_received c out inp = Inr (out', c\<lparr>decs := P'\<rparr>)"
    using m run by (simp add: Obj_iq_received_def MS_decimate_run_stages)
  moreover have "length out' = k"
    using l len f by (simp add: MS_decFact_prod)
  moreover note same stage_sizes_multiples[OF pos dv]
  ultimately show ?thesis by blast
qed

text \<open>
  \<^bold>\<open>C8.\<close> Take either channelizer, with the factors its decimators were constructed
  with and filters of at least as many taps as their factor, any bandwidth mode, and a
  batch whose length is a positive multiple \<open>k\<close> of the overall factor of the selected
  cascade. Then \<^verbatim>\<open>iq_received\<close> runs through every stage without a failed assertion
  and yields \<open>k\<close> samples; the length each stage is entered with is a multiple of that
  stage's factor, so \<^verbatim>\<open>in.size() % dec_fact == 0\<close> holds at every stage; and the
  channelizer is again as constructed, ready for the next batch.
\<close>

theorem cascade_batch_sizes:
  assumes "factors_as_constructed c" and "enough_taps c"
      and "decFact (setBw c bw) = Inr f" and "0 < k" and "length inp = k * f"
  shows "\<exists>out' c'. Channelizer_iq_received (setBw c bw) out inp = Inr (out', c')
           \<and> length out' = k
           \<and> list_all2 (\<lambda>M len. len mod M = 0)
                (stageFactors (setBw c bw))
                (stage_sizes (stageFactors (setBw c bw)) (length inp))
           \<and> factors_as_constructed c' \<and> enough_taps c'"
proof (cases c)
  case (Channelizer960 o1)
  let ?o = "Channelizer960_setBw o1 bw"
  obtain m where m: "dec ?o = Some m"
    by (cases bw) (simp_all add: Channelizer960_setBw_def)
  from assms(1,2) Channelizer960
  have fa: "\<And>r. dec_fact (decs o1 r) = fact960 r"
    and ta: "\<And>r. dec_fact (decs o1 r) \<le> taps (decs o1 r)"
    by (simp_all add: all960)
  have pos: "\<And>r. 0 < fact960 r"
    by (case_tac r) simp_all
  have ok: "\<forall>r. 0 < dec_fact (decs ?o r) \<and> dec_fact (decs ?o r) \<le> taps (decs ?o r)"
    using fa ta pos by simp
  from assms(3,5) Channelizer960 m
  have len: "length inp = k * MS_decFact (decs ?o) m"
    by (simp add: Obj_decFact_def)
  from Obj_iq_received_ok[OF m ok len, of out] obtain out' P'
    where "Obj_iq_received ?o out inp = Inr (out', ?o\<lparr>decs := P'\<rparr>)"
      and "length out' = k"
      and "\<forall>q. dec_fact (P' q) = dec_fact (decs ?o q) \<and> taps (P' q) = taps (decs ?o q)"
      and "list_all2 (\<lambda>M l. l mod M = 0)
                (map (\<lambda>r. dec_fact (decs ?o r)) (MS_stages m))
                (stage_sizes (map (\<lambda>r. dec_fact (decs ?o r)) (MS_stages m)) (length inp))"
    by blast
  then show ?thesis
    using Channelizer960 m fa ta by (auto simp add: all960)
next
  case (Channelizer2400 o2)
  let ?o = "Channelizer2400_setBw o2 bw"
  obtain m where m: "dec ?o = Some m"
    by (cases bw) (simp_all add: Channelizer2400_setBw_def)
  from assms(1,2) Channelizer2400
  have fa: "\<And>r. dec_fact (decs o2 r) = fact2400 r"
    and ta: "\<And>r. dec_fact (decs o2 r) \<le> taps (decs o2 r)"
    by (simp_all add: all2400)
  have pos: "\<And>r. 0 < fact2400 r"
    by (case_tac r) simp_all
  have ok: "\<forall>r. 0 < dec_fact (decs ?o r) \<and> dec_fact (decs ?o r) \<le> taps (decs ?o r)"
    using fa ta pos by simp
  from assms(3,5) Channelizer2400 m
  have len: "length inp = k * MS_decFact (decs ?o) m"
    by (simp add: Obj_decFact_def)
  from Obj_iq_received_ok[OF m ok len, of out] obtain out' P'
    where "Obj_iq_received ?o out inp = Inr (out', ?o\<lparr>decs := P'\<rparr>)"
      and "length out' = k"
      and "\<forall>q. dec_fact (P' q) = dec_fact (decs ?o q) \<and> taps (P' q) = taps (decs ?o q)"
      and "list_all2 (\<lambda>M l. l mod M = 0)
                (map (\<lambda>r. dec_fact (decs ?o r)) (MS_stages m))
                (stage_sizes (map (\<lambda>r. dec_fact (decs ?o r)) (MS_stages m)) (length inp))"
    by blast
  then show ?thesis
    using Channelizer2400 m fa ta by (auto simp add: all2400)
qed


theorem cascade_batch_sizes_witness:
  "\<exists>out' c'. Channelizer_iq_received
                 (setBw (Channelizer960 (Channelizer960_new fc6)) BW_20K) [] (replicate 60 1)
               = Inr (out', c')
            \<and> length out' = 2
            \<and> stage_sizes (stageFactors (setBw (Channelizer960 (Channelizer960_new fc6)) BW_20K)) 60
                = [60, 12, 4, 2]"
proof -
  let ?c = "Channelizer960 (Channelizer960_new fc6)"
  have h1: "factors_as_constructed ?c"
    by (rule factors960_new)
  have h2: "enough_taps ?c"
    by (simp add: Channelizer960_new_def Channelizer960_setBw_def all_dec960_def
        Decimator_new_def setDecimatorParams_def fc6_def)
  have h3: "decFact (setBw ?c BW_20K) = Inr 30"
    by (simp add: Channelizer960_new_def Channelizer960_setBw_def Obj_decFact_def
        Decimator_new_def setDecimatorParams_def)
  have h4: "(0::nat) < 2" by simp
  have h5: "length (replicate 60 (1::complex)) = 2 * 30" by simp
  have s: "stage_sizes (stageFactors (setBw ?c BW_20K)) 60 = [60, 12, 4, 2]"
    by (simp add: Channelizer960_new_def Channelizer960_setBw_def
        Decimator_new_def setDecimatorParams_def)
  from cascade_batch_sizes[OF h1 h2 h3 h4 h5, of "[]"] s
  show ?thesis by blast
qed


subsection \<open>The translator\<close>

lemma Translate_gcd_eq: "0 < b \<Longrightarrow> Translate_gcd a b = Inr (gcd a b)"
proof (induction a b rule: Translate_gcd.induct)
  case (1 dividend divisor)
  show ?case
  proof (cases "dividend mod divisor = 0")
    case True
    then have "gcd dividend divisor = divisor"
      by (metis gcd.commute gcd_nat.absorb_iff1 mod_eq_0_iff_dvd)
    with True 1 show ?thesis
      by (subst Translate_gcd.simps) simp
  next
    case False
    then have pos: "0 < dividend mod divisor" by simp
    have "gcd dividend divisor = gcd divisor (dividend mod divisor)"
      by (metis gcd.commute gcd_red_nat)
    with False 1 pos show ?thesis
      by (subst Translate_gcd.simps) (simp add: Let_def)
  qed
qed

lemma setOffset_zero:
  "Translate_setOffset tr 0 = Inr (tr\<lparr>tr_n := 0, exp_lut := []\<rparr>)"
  by (simp add: Translate_setOffset_def)

lemma setOffset_nonzero:
  assumes "f \<noteq> 0"
  shows "Translate_setOffset tr f =
           Inr (tr\<lparr>tr_n := 0,
                   exp_lut := map (lut_entry (samp_rate tr) f)
                                [0..<samp_rate tr div gcd (samp_rate tr) (nat \<bar>f\<bar>)]\<rparr>)"
proof -
  let ?tr1 = "tr\<lparr>tr_n := 0, exp_lut := []\<rparr>"
  let ?g = "gcd (samp_rate tr) (nat \<bar>f\<bar>)"
  from assms have pos: "0 < nat \<bar>f\<bar>" by simp
  have R: "samp_rate ?tr1 = samp_rate tr" by simp
  have g: "Translate_gcd (samp_rate tr) (nat \<bar>f\<bar>) = Inr ?g"
    using pos by (rule Translate_gcd_eq)
  from pos have "?g \<noteq> 0" by (simp only: gcd_eq_0_iff) simp
  then have nz: "(?g = 0) = False" by (simp only:)
  have "Translate_setOffset tr f =
          Inr (?tr1\<lparr>exp_lut := map (lut_entry (samp_rate tr) f) [0..<samp_rate tr div ?g]\<rparr>)"
    using assms by (simp only: Translate_setOffset_def Let_def R g bindE_simps nz if_False)
  then show ?thesis by simp
qed

lemma translate_loop_run:
  assumes "k < length lut"
  shows "translate_loop lut k xs out =
           (out @ map (\<lambda>i. xs ! i * lut ! ((k + i) mod length lut)) [0..<length xs],
            (k + length xs) mod length lut)"
  using assms
proof (induction xs arbitrary: k out)
  case Nil
  then show ?case by simp
next
  case (Cons x xs)
  let ?k' = "if k + 1 = length lut then 0 else k + 1"
  from Cons.prems have k': "?k' < length lut" and eq: "?k' = (k + 1) mod length lut"
    by auto
  have idx: "\<And>i. (?k' + i) mod length lut = (k + Suc i) mod length lut"
    unfolding eq by (simp add: mod_add_left_eq)
  have "map (\<lambda>i. (x # xs) ! i * lut ! ((k + i) mod length lut)) [0..<length (x # xs)]
        = x * lut ! k # map (\<lambda>i. xs ! i * lut ! ((?k' + i) mod length lut)) [0..<length xs]"
    using Cons.prems by (simp only: idx length_Cons map_upt_Suc) simp
  moreover have "(?k' + length xs) mod length lut = (k + length (x # xs)) mod length lut"
    using idx[of "length xs"] by simp
  ultimately show ?case
    using Cons.IH[OF k', of "out @ [x * lut ! k]"] by simp
qed


lemma lut_entry_exp:
  "lut_entry R f i = exp (- \<i> * complex_of_real (2 * pi * real_of_int f * real i / real R))"
proof -
  have "Complex 0 (- 2 * pi * real_of_int f * real i / real R)
          = - \<i> * complex_of_real (2 * pi * real_of_int f * real i / real R)"
    by (simp add: complex_eq_iff)
  then show ?thesis by (simp only: lut_entry_def)
qed

lemma iq_received_passthrough:
  "exp_lut t = [] \<Longrightarrow> Translate_iq_received t out inp = (inp, t)"
  by (simp add: Translate_iq_received_def)

lemma iq_received_lut:
  assumes "tr_n t < length (exp_lut t)"
  shows "Translate_iq_received t out inp =
           (map (\<lambda>k. inp ! k * exp_lut t ! ((tr_n t + k) mod length (exp_lut t))) [0..<length inp],
            t\<lparr>tr_n := (tr_n t + length inp) mod length (exp_lut t)\<rparr>)"
proof -
  from assms have "exp_lut t \<noteq> []" by auto
  with translate_loop_run[OF assms, of inp "[]"] show ?thesis
    by (simp add: Translate_iq_received_def)
qed

text \<open>
  \<^bold>\<open>C3.\<close> For a translator at a sample rate \<open>R > 0\<close>, \<^verbatim>\<open>setOffset(f)\<close> returns with
  the phase index 0. For \<open>f = 0\<close> the table is empty, and a translator with an empty
  table hands its input through unchanged. For \<open>f \<noteq> 0\<close> the table has exactly
  \<open>N = R / gcd(R, |f|)\<close> entries, \<open>N > 0\<close>, entry \<open>i\<close> being \<open>exp(-j 2\<pi> f i / R)\<close>; and
  from any phase index \<open>n\<^sub>0 < N\<close>, a batch yields one output per input,
  \<open>out[k] = in[k] \<cdot> LUT[(n\<^sub>0 + k) mod N]\<close>, the factor being the table entry at the phase
  index current for that sample, and leaves the phase index at
  \<open>(n\<^sub>0 + K) mod N\<close> after \<open>K\<close> samples.
\<close>

theorem translate_lut_phase:
  assumes "samp_rate tr = R" and "0 < R"
  shows "\<exists>tr'. Translate_setOffset tr f = Inr tr'
           \<and> tr_n tr' = 0 \<and> samp_rate tr' = R
           \<and> (f = 0 \<longrightarrow>
                 exp_lut tr' = []
               \<and> (\<forall>t out inp. exp_lut t = [] \<longrightarrow> Translate_iq_received t out inp = (inp, t)))
           \<and> (f \<noteq> 0 \<longrightarrow>
                (let N = R div gcd R (nat \<bar>f\<bar>) in
                   0 < N \<and> length (exp_lut tr') = N
                 \<and> (\<forall>i<N. exp_lut tr' ! i =
                       exp (- \<i> * complex_of_real (2 * pi * real_of_int f * real i / real R)))
                 \<and> (\<forall>t out inp. exp_lut t = exp_lut tr' \<and> tr_n t < N \<longrightarrow>
                       (\<exists>out'. Translate_iq_received t out inp =
                                 (out', t\<lparr>tr_n := (tr_n t + length inp) mod N\<rparr>)
                              \<and> length out' = length inp
                              \<and> (\<forall>k<length inp.
                                    out' ! k = inp ! k * exp_lut tr' ! ((tr_n t + k) mod N))))))"
proof (cases "f = 0")
  case True
  then show ?thesis
    using assms by (simp add: setOffset_zero iq_received_passthrough)
next
  case False
  let ?N = "R div gcd R (nat \<bar>f\<bar>)"
  let ?tr' = "tr\<lparr>tr_n := 0, exp_lut := map (lut_entry R f) [0..<?N]\<rparr>"
  have set: "Translate_setOffset tr f = Inr ?tr'"
    using setOffset_nonzero[OF False, of tr] assms by simp
  have "gcd R (nat \<bar>f\<bar>) dvd R" by (rule gcd_dvd1)
  with assms(2) have "gcd R (nat \<bar>f\<bar>) \<le> R" by (rule_tac dvd_imp_le)
  moreover from assms(2) have "0 < gcd R (nat \<bar>f\<bar>)" by (simp only: gcd_pos_nat) simp
  ultimately have N: "0 < ?N" by (simp add: div_greater_zero_iff)
  have len: "length (exp_lut ?tr') = ?N" by simp
  have ent: "\<forall>i<?N. exp_lut ?tr' ! i =
               exp (- \<i> * complex_of_real (2 * pi * real_of_int f * real i / real R))"
    by (simp add: lut_entry_exp)
  have run: "\<forall>t out inp. exp_lut t = exp_lut ?tr' \<and> tr_n t < ?N \<longrightarrow>
       (\<exists>out'. Translate_iq_received t out inp =
                 (out', t\<lparr>tr_n := (tr_n t + length inp) mod ?N\<rparr>)
              \<and> length out' = length inp
              \<and> (\<forall>k<length inp. out' ! k = inp ! k * exp_lut ?tr' ! ((tr_n t + k) mod ?N)))"
  proof (intro allI impI)
    fix t :: Translate and out inp :: "complex list"
    assume a: "exp_lut t = exp_lut ?tr' \<and> tr_n t < ?N"
    then have lt: "tr_n t < length (exp_lut t)" and l: "length (exp_lut t) = ?N"
      by simp_all
    show "\<exists>out'. Translate_iq_received t out inp =
                 (out', t\<lparr>tr_n := (tr_n t + length inp) mod ?N\<rparr>)
              \<and> length out' = length inp
              \<and> (\<forall>k<length inp. out' ! k = inp ! k * exp_lut ?tr' ! ((tr_n t + k) mod ?N))"
      unfolding iq_received_lut[OF lt] l using a by simp
  qed
  have "tr_n ?tr' = 0" "samp_rate ?tr' = R"
    using assms by simp_all
  with set N len ent run False show ?thesis
    unfolding Let_def by (intro exI[of _ ?tr'] conjI impI) (assumption | erule notE)+
qed


theorem translate_lut_phase_witness:
  "\<exists>tr'. Translate_setOffset \<lparr>samp_rate = 960000, exp_lut = [], tr_n = 7\<rparr> (- 20000) = Inr tr'
         \<and> tr_n tr' = 0
         \<and> length (exp_lut tr') = 48
         \<and> exp_lut tr' ! 0 = 1
         \<and> snd (Translate_iq_received (tr'\<lparr>tr_n := 40\<rparr>) [] (replicate 10 1)) = tr'\<lparr>tr_n := 2\<rparr>"
proof -
  let ?tr = "\<lparr>samp_rate = 960000, exp_lut = [], tr_n = 7\<rparr>"
  have h1: "samp_rate ?tr = 960000" by simp
  have h2: "(0::nat) < 960000" by simp
  have g: "gcd (960000::nat) (nat \<bar>- 20000 :: int\<bar>) = 20000"
    by (simp add: gcd_proj2_if_dvd_nat)
  have N: "(960000::nat) div gcd 960000 (nat \<bar>- 20000 :: int\<bar>) = 48"
    unfolding g by simp
  have nz: "(- 20000 :: int) \<noteq> 0" by simp
  from translate_lut_phase[OF h1 h2, of "- 20000"] obtain tr'
    where a: "Translate_setOffset ?tr (- 20000) = Inr tr'" and b: "tr_n tr' = 0"
      and c: "(- 20000 :: int) \<noteq> 0 \<longrightarrow>
                (let N = 960000 div gcd 960000 (nat \<bar>- 20000 :: int\<bar>) in
                   0 < N \<and> length (exp_lut tr') = N
                 \<and> (\<forall>i<N. exp_lut tr' ! i =
                       exp (- \<i> * complex_of_real (2 * pi * real_of_int (- 20000) * real i / real 960000)))
                 \<and> (\<forall>t out inp. exp_lut t = exp_lut tr' \<and> tr_n t < N \<longrightarrow>
                       (\<exists>out'. Translate_iq_received t out inp =
                                 (out', t\<lparr>tr_n := (tr_n t + length inp) mod N\<rparr>)
                              \<and> length out' = length inp
                              \<and> (\<forall>k<length inp.
                                    out' ! k = inp ! k * exp_lut tr' ! ((tr_n t + k) mod N)))))"
    by blast
  from c[rule_format, OF nz, unfolded Let_def N]
  have len: "length (exp_lut tr') = 48"
    and ent: "\<forall>i<48. exp_lut tr' ! i =
                exp (- \<i> * complex_of_real (2 * pi * real_of_int (- 20000) * real i / real 960000))"
    and run: "\<forall>t out inp. exp_lut t = exp_lut tr' \<and> tr_n t < 48 \<longrightarrow>
                (\<exists>out'. Translate_iq_received t out inp =
                          (out', t\<lparr>tr_n := (tr_n t + length inp) mod 48\<rparr>)
                       \<and> length out' = length inp
                       \<and> (\<forall>k<length inp. out' ! k = inp ! k * exp_lut tr' ! ((tr_n t + k) mod 48)))"
    by blast+
  from ent have e0: "exp_lut tr' ! 0 = 1" by simp
  from run[rule_format, of "tr'\<lparr>tr_n := 40\<rparr>" "[]" "replicate 10 1"]
  have "snd (Translate_iq_received (tr'\<lparr>tr_n := 40\<rparr>) [] (replicate 10 1)) = tr'\<lparr>tr_n := 2\<rparr>"
    by auto
  with a b len e0 show ?thesis by blast
qed


subsection \<open>The FM demodulator\<close>

lemma fm_loop_run:
  "fm_loop io qo xs acc =
     (acc @ map (\<lambda>k. let (ip, qp) = prev_iq (io, qo) xs k;
                         s = xs ! k / complex_of_real (cmod (xs ! k));
                         i = Re s; q = Im s
                     in atan2 (q * ip - i * qp) (i * ip + q * qp)) [0..<length xs],
      prev_iq (io, qo) xs (length xs))"
proof (induction xs arbitrary: io qo acc)
  case Nil
  show ?case by simp
next
  case (Cons s rest)
  let ?n = "s / complex_of_real (cmod s)"
  have prev: "\<And>k. prev_iq (io, qo) (s # rest) (Suc k) = prev_iq (Re ?n, Im ?n) rest k"
    by (case_tac k) simp_all
  show ?case
    by (simp only: fm_loop.simps Let_def Cons.IH length_Cons map_upt_Suc prev)
       (simp add: Let_def)
qed

lemma cmod_normalized: "s \<noteq> 0 \<Longrightarrow> cmod (s / complex_of_real (cmod s)) = 1"
  by (simp add: norm_divide)

lemma iq_received_audio_chain:
  "DemodulatorFm_iq_received d samples =
     (case fm_loop (iold d) (qold d) samples [] of
        (audio, i, q) \<Rightarrow> audio_chain (d\<lparr>iold := i, qold := q\<rparr>) audio)"
  by (simp add: DemodulatorFm_iq_received_def audio_chain_def Let_def split: prod.splits)

text \<open>
  \<^bold>\<open>C4.\<close> For a batch without a zero sample (a zero sample gives \<open>0/0\<close>, a NaN in
  the C++), the FM demodulator produces one value per sample, in the order of the
  samples. Sample \<open>k\<close> is normalised to \<open>s/|s|\<close>, of modulus 1, and with \<open>(i, q)\<close> its real
  and imaginary part the value is
  \<open>\<psi> = atan2(q \<cdot> i\<^sub>p\<^sub>r\<^sub>e\<^sub>v - i \<cdot> q\<^sub>p\<^sub>r\<^sub>e\<^sub>v, i \<cdot> i\<^sub>p\<^sub>r\<^sub>e\<^sub>v + q \<cdot> q\<^sub>p\<^sub>r\<^sub>e\<^sub>v)\<close>, where the previous pair is the
  stored one for \<open>k = 0\<close> and the normalised sample \<open>k - 1\<close> afterwards; the pair stored
  after the batch is the last normalised sample; the whole sequence of values is the
  input of the audio decimation chain; and a newly constructed demodulator stores
  \<open>(1, 1)\<close>.
\<close>

theorem fm_demod_psi:
  assumes "\<forall>s\<in>set samples. s \<noteq> 0"
  shows "\<exists>psis i q.
           fm_loop (iold d) (qold d) samples [] = (psis, i, q)
         \<and> length psis = length samples
         \<and> (\<forall>k<length samples.
               cmod (samples ! k / complex_of_real (cmod (samples ! k))) = 1
             \<and> psis ! k =
                 (let (ip, qp) = prev_iq (iold d, qold d) samples k;
                      s = samples ! k / complex_of_real (cmod (samples ! k));
                      i = Re s; q = Im s
                  in atan2 (q * ip - i * qp) (i * ip + q * qp)))
         \<and> (i, q) = prev_iq (iold d, qold d) samples (length samples)
         \<and> DemodulatorFm_iq_received d samples = audio_chain (d\<lparr>iold := i, qold := q\<rparr>) psis
         \<and> iold (DemodulatorFm_new fc rate max_dev) = 1
         \<and> qold (DemodulatorFm_new fc rate max_dev) = 1"
proof -
  let ?psi = "\<lambda>k. let (ip, qp) = prev_iq (iold d, qold d) samples k;
                       s = samples ! k / complex_of_real (cmod (samples ! k));
                       i = Re s; q = Im s
                   in atan2 (q * ip - i * qp) (i * ip + q * qp)"
  let ?psis = "map ?psi [0..<length samples]"
  obtain i q where iq: "prev_iq (iold d, qold d) samples (length samples) = (i, q)"
    by (cases "prev_iq (iold d, qold d) samples (length samples)")
  have run: "fm_loop (iold d) (qold d) samples [] = (?psis, i, q)"
    using fm_loop_run[of "iold d" "qold d" samples "[]"] iq by simp
  have "\<forall>k<length samples. cmod (samples ! k / complex_of_real (cmod (samples ! k))) = 1"
    using assms by (simp add: cmod_normalized)
  moreover have "\<forall>k<length samples. ?psis ! k = ?psi k" by simp
  moreover have "DemodulatorFm_iq_received d samples = audio_chain (d\<lparr>iold := i, qold := q\<rparr>) ?psis"
    by (simp only: iq_received_audio_chain run prod.case)
  moreover have "iold (DemodulatorFm_new fc rate max_dev) = 1" "qold (DemodulatorFm_new fc rate max_dev) = 1"
    by (simp_all add: DemodulatorFm_new_def setDemodParams_def Let_def)
  moreover have "length ?psis = length samples" by simp
  ultimately show ?thesis using run iq by (intro exI[of _ ?psis] exI[of _ i] exI[of _ q]) simp
qed


theorem fm_demod_psi_witness:
  "\<exists>psis i q. fm_loop 1 1 [\<i>, - 1] [] = (psis, i, q)
       \<and> length psis = 2 \<and> psis ! 0 = pi / 4 \<and> psis ! 1 = pi / 2 \<and> (i, q) = (- 1, 0)"
proof -
  let ?d = "DemodulatorFm_new fc6 32000 5000"
  let ?xs = "[\<i>, - 1 :: complex]"
  have st: "iold ?d = 1" "qold ?d = 1"
    by (simp_all add: DemodulatorFm_new_def setDemodParams_def Let_def)
  have h: "\<forall>s\<in>set ?xs. s \<noteq> 0" by simp
  from fm_demod_psi[OF h, of ?d fc6 32000 5000] obtain psis i q
    where run: "fm_loop (iold ?d) (qold ?d) ?xs [] = (psis, i, q)"
      and len: "length psis = length ?xs"
      and psi: "\<forall>k<length ?xs. psis ! k =
                 (let (ip, qp) = prev_iq (iold ?d, qold ?d) ?xs k;
                      s = ?xs ! k / complex_of_real (cmod (?xs ! k));
                      i = Re s; q = Im s
                  in atan2 (q * ip - i * qp) (i * ip + q * qp))"
      and fin: "(i, q) = prev_iq (iold ?d, qold ?d) ?xs (length ?xs)"
    by blast
  from psi[rule_format, of 0] have p0: "psis ! 0 = pi / 4"
    by (simp add: st atan2_def arctan_one)
  from psi[rule_format, of 1] have p1: "psis ! 1 = pi / 2"
    by (simp add: st atan2_def)
  from fin have "(i, q) = (- 1, 0)"
    by (simp add: numeral_2_eq_2)
  with run len p0 p1 show ?thesis
    by (simp add: st)
qed


lemma iq_received_stages:
  "DemodulatorFm_iq_received dm samples =
     (let psis = map (\<lambda>k. let (ip, qp) = prev_iq (iold dm, qold dm) samples k;
                               s = samples ! k / complex_of_real (cmod (samples ! k));
                               i = Re s; q = Im s
                           in atan2 (q * ip - i * qp) (i * ip + q * qp)) [0..<length samples];
          (i, q) = prev_iq (iold dm, qold dm) samples (length samples);
          d1 = dm\<lparr>iold := i, qold := q\<rparr>
      in if wb_mode dm
         then (case decimate (audio_dec_wb dm) [] psis of
                 Inl e \<Rightarrow> Inl e
               | Inr (a1, wb') \<Rightarrow>
                   (case decimate (audio_dec dm) [] a1 of
                      Inl e \<Rightarrow> Inl e
                    | Inr (out, ad') \<Rightarrow> Inr (out, d1\<lparr>audio_dec_wb := wb', audio_dec := ad'\<rparr>)))
         else (case decimate (audio_dec dm) [] psis of
                 Inl e \<Rightarrow> Inl e
               | Inr (out, ad') \<Rightarrow> Inr (out, d1\<lparr>audio_dec := ad'\<rparr>)))"
  by (simp add: iq_received_audio_chain fm_loop_run audio_chain_def bindE_def Let_def
      split: prod.splits sum.splits)

lemma gain_linear:
  assumes "0 < x"
  shows "10 powr (20 * log 10 x / 20) = x"
  using assms by simp

lemma audio_chain_last_stage:
  assumes "audio_chain d audio = Inr (out, d')"
  shows "\<exists>inp. decimate (audio_dec d) [] inp = Inr (out, audio_dec d')
           \<and> (\<not> wb_mode d \<longrightarrow> inp = audio)
           \<and> (wb_mode d \<longrightarrow> (\<exists>wb'. decimate (audio_dec_wb d) [] audio = Inr (inp, wb')))"
proof (cases "wb_mode d")
  case False
  with assms show ?thesis
    by (auto simp: audio_chain_def bindE_def split: sum.splits prod.splits)
next
  case True
  with assms show ?thesis
    by (auto simp: audio_chain_def bindE_def split: sum.splits prod.splits)
qed

text \<open>
  \<^bold>\<open>C5.\<close> After \<^verbatim>\<open>setDemodParams(samp_rate, max_dev)\<close>, on any demodulator:
  for positive arguments the 32k to 16k decimator \<^verbatim>\<open>audio_dec\<close> has been given the gain
  \<open>20 \<cdot> log\<^sub>1\<^sub>0((samp_rate / (2\<pi> \<cdot> max_dev)) / 2)\<close> dB, that is, its working coefficients are
  the design coefficients times \<open>samp_rate / (2\<pi> \<cdot> max_dev) / 2\<close>; its factor is
  untouched; \<^verbatim>\<open>wb_mode\<close> is set if and only if \<open>samp_rate > 32000\<close>; the wideband
  decimator is configured 5:1 with the 160k to 32k table for \<open>samp_rate = 160000\<close>, 6:1
  with the 192k to 32k table for \<open>samp_rate = 192000\<close>, and is left alone otherwise; in
  either mode what a batch writes to the sink is an output of \<^verbatim>\<open>audio_dec\<close>, whose state
  after the batch is the one that call left. More exactly, for every batch (without a
  zero sample): with \<^verbatim>\<open>wb_mode\<close> clear, the result of the batch is the result of
  \<^verbatim>\<open>audio_dec.decimate\<close> on the demodulated values of that batch, all of them, in order;
  with \<^verbatim>\<open>wb_mode\<close> set, it is the result of \<^verbatim>\<open>audio_dec.decimate\<close> on what
  \<^verbatim>\<open>audio_dec_wb.decimate\<close> makes of those values; and the batch fails exactly when one
  of these calls fails.
\<close>

theorem setDemodParams_effect:
  "(let d' = setDemodParams fc d rate max_dev;
        adj_db = 20 * log 10 ((real rate / (2 * pi * max_dev)) / 2)
    in (0 < rate \<and> 0 < max_dev \<longrightarrow>
          audio_dec d' = setGain (audio_dec d) adj_db
        \<and> coeff (audio_dec d') = map (\<lambda>c. c * 10 powr (adj_db / 20)) (set_coeff (audio_dec d))
        \<and> coeff (audio_dec d') =
            map (\<lambda>c. c * ((real rate / (2 * pi * max_dev)) / 2)) (set_coeff (audio_dec d)))
     \<and> dec_fact (audio_dec d') = dec_fact (audio_dec d)
     \<and> wb_mode d' = (rate > 32000)
     \<and> (rate = 160000 \<longrightarrow>
          audio_dec_wb d' = setDecimatorParams (audio_dec_wb d) 5
                              (coeff_dec_160k_32k fc) (length (coeff_dec_160k_32k fc))
        \<and> dec_fact (audio_dec_wb d') = 5)
     \<and> (rate = 192000 \<longrightarrow>
          audio_dec_wb d' = setDecimatorParams (audio_dec_wb d) 6
                              (coeff_dec_192k_32k fc) (length (coeff_dec_192k_32k fc))
        \<and> dec_fact (audio_dec_wb d') = 6)
     \<and> (rate \<noteq> 160000 \<and> rate \<noteq> 192000 \<longrightarrow> audio_dec_wb d' = audio_dec_wb d)
     \<and> (\<forall>samples out d''.
          DemodulatorFm_iq_received d' samples = Inr (out, d'') \<longrightarrow>
            (\<exists>inp. decimate (audio_dec d') [] inp = Inr (out, audio_dec d'')))
     \<and> (\<forall>samples. (\<forall>s\<in>set samples. s \<noteq> 0) \<longrightarrow>
          DemodulatorFm_iq_received d' samples =
            (let psis = map (\<lambda>k. let (ip, qp) = prev_iq (iold d', qold d') samples k;
                                        s = samples ! k / complex_of_real (cmod (samples ! k));
                                        i = Re s; q = Im s
                                    in atan2 (q * ip - i * qp) (i * ip + q * qp))
                              [0..<length samples];
                   (i, q) = prev_iq (iold d', qold d') samples (length samples);
                   d1 = d'\<lparr>iold := i, qold := q\<rparr>
               in if wb_mode d'
                  then (case decimate (audio_dec_wb d') [] psis of
                          Inl e \<Rightarrow> Inl e
                        | Inr (a1, wb') \<Rightarrow>
                            (case decimate (audio_dec d') [] a1 of
                               Inl e \<Rightarrow> Inl e
                             | Inr (out, ad') \<Rightarrow>
                                 Inr (out, d1\<lparr>audio_dec_wb := wb', audio_dec := ad'\<rparr>)))
                  else (case decimate (audio_dec d') [] psis of
                          Inl e \<Rightarrow> Inl e
                        | Inr (out, ad') \<Rightarrow> Inr (out, d1\<lparr>audio_dec := ad'\<rparr>)))))"
proof -
  let ?d' = "setDemodParams fc d rate max_dev"
  let ?adj = "(real rate / (2 * pi * max_dev)) / 2"
  have a: "audio_dec ?d' = setGain (audio_dec d) (20 * log 10 ?adj)"
    by (simp add: setDemodParams_def Let_def)
  have b: "0 < rate \<and> 0 < max_dev \<longrightarrow>
            audio_dec ?d' = setGain (audio_dec d) (20 * log 10 ?adj)
          \<and> coeff (audio_dec ?d') =
              map (\<lambda>c. c * 10 powr (20 * log 10 ?adj / 20)) (set_coeff (audio_dec d))
          \<and> coeff (audio_dec ?d') = map (\<lambda>c. c * ?adj) (set_coeff (audio_dec d))"
  proof
    assume "0 < rate \<and> 0 < max_dev"
    then have "0 < ?adj" by simp
    then have lin: "10 powr (20 * log 10 ?adj / 20) = ?adj" by (rule gain_linear)
    have "coeff (audio_dec ?d') =
            map (\<lambda>c. c * 10 powr (20 * log 10 ?adj / 20)) (set_coeff (audio_dec d))"
      by (simp add: a setGain_def)
    with a lin
    show "audio_dec ?d' = setGain (audio_dec d) (20 * log 10 ?adj)
          \<and> coeff (audio_dec ?d') =
              map (\<lambda>c. c * 10 powr (20 * log 10 ?adj / 20)) (set_coeff (audio_dec d))
          \<and> coeff (audio_dec ?d') = map (\<lambda>c. c * ?adj) (set_coeff (audio_dec d))"
      by simp
  qed
  have c: "wb_mode ?d' = (rate > 32000)"
    by (simp add: setDemodParams_def Let_def)
  have w1: "rate = 160000 \<longrightarrow>
          audio_dec_wb ?d' = setDecimatorParams (audio_dec_wb d) 5
                              (coeff_dec_160k_32k fc) (length (coeff_dec_160k_32k fc))
        \<and> dec_fact (audio_dec_wb ?d') = 5"
    by (simp add: setDemodParams_def Let_def setDecimatorParams_def)
  have w2: "rate = 192000 \<longrightarrow>
          audio_dec_wb ?d' = setDecimatorParams (audio_dec_wb d) 6
                              (coeff_dec_192k_32k fc) (length (coeff_dec_192k_32k fc))
        \<and> dec_fact (audio_dec_wb ?d') = 6"
    by (simp add: setDemodParams_def Let_def setDecimatorParams_def)
  have w3: "rate \<noteq> 160000 \<and> rate \<noteq> 192000 \<longrightarrow> audio_dec_wb ?d' = audio_dec_wb d"
    by (simp add: setDemodParams_def Let_def)
  have e: "\<forall>samples out d''.
          DemodulatorFm_iq_received ?d' samples = Inr (out, d'') \<longrightarrow>
            (\<exists>inp. decimate (audio_dec ?d') [] inp = Inr (out, audio_dec d''))"
  proof (intro allI impI)
    fix samples out d''
    assume r: "DemodulatorFm_iq_received ?d' samples = Inr (out, d'')"
    obtain audio i q where l: "fm_loop (iold ?d') (qold ?d') samples [] = (audio, i, q)"
      by (cases "fm_loop (iold ?d') (qold ?d') samples []") auto
    from r l have "audio_chain (?d'\<lparr>iold := i, qold := q\<rparr>) audio = Inr (out, d'')"
      by (simp add: iq_received_audio_chain)
    from audio_chain_last_stage[OF this]
    show "\<exists>inp. decimate (audio_dec ?d') [] inp = Inr (out, audio_dec d'')"
      by auto
  qed
  have f: "dec_fact (audio_dec ?d') = dec_fact (audio_dec d)"
    by (simp add: a setGain_def)
  have g: "\<forall>samples. (\<forall>s\<in>set samples. s \<noteq> 0) \<longrightarrow>
          DemodulatorFm_iq_received ?d' samples =
            (let psis = map (\<lambda>k. let (ip, qp) = prev_iq (iold ?d', qold ?d') samples k;
                                        s = samples ! k / complex_of_real (cmod (samples ! k));
                                        i = Re s; q = Im s
                                    in atan2 (q * ip - i * qp) (i * ip + q * qp))
                              [0..<length samples];
                   (i, q) = prev_iq (iold ?d', qold ?d') samples (length samples);
                   d1 = ?d'\<lparr>iold := i, qold := q\<rparr>
               in if wb_mode ?d'
                  then (case decimate (audio_dec_wb ?d') [] psis of
                          Inl e \<Rightarrow> Inl e
                        | Inr (a1, wb') \<Rightarrow>
                            (case decimate (audio_dec ?d') [] a1 of
                               Inl e \<Rightarrow> Inl e
                             | Inr (out, ad') \<Rightarrow>
                                 Inr (out, d1\<lparr>audio_dec_wb := wb', audio_dec := ad'\<rparr>)))
                  else (case decimate (audio_dec ?d') [] psis of
                          Inl e \<Rightarrow> Inl e
                        | Inr (out, ad') \<Rightarrow> Inr (out, d1\<lparr>audio_dec := ad'\<rparr>)))"
    by (intro allI impI) (rule iq_received_stages)
  from b c w1 w2 w3 e f g show ?thesis
    by (simp only: Let_def [of "setDemodParams fc d rate max_dev"]
          Let_def [of "20 * log 10 (real rate / (2 * pi * max_dev) / 2)"])
qed


theorem setDemodParams_effect_witness:
  "wb_mode (setDemodParams fc6 (DemodulatorFm_new fc6 32000 5000) 160000 75000)
   \<and> dec_fact (audio_dec_wb (setDemodParams fc6 (DemodulatorFm_new fc6 32000 5000) 160000 75000)) = 5
   \<and> dec_fact (audio_dec (setDemodParams fc6 (DemodulatorFm_new fc6 32000 5000) 160000 75000)) = 2
   \<and> coeff (audio_dec (setDemodParams fc6 (DemodulatorFm_new fc6 32000 5000) 160000 75000))
       = map (\<lambda>c. c * (160000 / (2 * pi * 75000) / 2)) [1, 1, 1, 1, 1, 1]
   \<and> (\<exists>d''. DemodulatorFm_iq_received
               (setDemodParams fc6 (DemodulatorFm_new fc6 32000 5000) 32000 5000) [\<i>, - 1]
             = Inr ([6 / 5], d''))"
proof -
  let ?d = "DemodulatorFm_new fc6 32000 5000"
  have d: "dec_fact (audio_dec ?d) = 2" "set_coeff (audio_dec ?d) = [1, 1, 1, 1, 1, 1]"
    by (simp_all add: DemodulatorFm_new_def setDemodParams_def Let_def setGain_def
        Decimator_new_def setDecimatorParams_def fc6_def)
  let ?d' = "setDemodParams fc6 ?d 160000 75000"
  have h: "(0::nat) < 160000 \<and> (0::real) < 75000" by simp
  note T = setDemodParams_effect[of fc6 ?d 160000 75000, unfolded Let_def]
  from T h have g: "coeff (audio_dec ?d') =
      map (\<lambda>c. c * ((real 160000 / (2 * pi * 75000)) / 2)) (set_coeff (audio_dec ?d))"
    by blast
  from T have wb: "wb_mode ?d' = ((160000::nat) > 32000)"
    by blast
  from T have f: "dec_fact (audio_dec ?d') = dec_fact (audio_dec ?d)"
    by blast
  from T have "(160000::nat) = 160000 \<longrightarrow> dec_fact (audio_dec_wb ?d') = 5"
    by blast
  then have w: "dec_fact (audio_dec_wb ?d') = 5"
    by simp
  from wb have "wb_mode ?d'" by simp
  moreover from f d have "dec_fact (audio_dec ?d') = 2" by simp
  moreover from g d have "coeff (audio_dec ?d') =
      map (\<lambda>c. c * (160000 / (2 * pi * 75000) / 2)) [1, 1, 1, 1, 1, 1]" by simp
  ultimately have first: "wb_mode ?d' \<and> dec_fact (audio_dec_wb ?d') = 5
      \<and> dec_fact (audio_dec ?d') = 2
      \<and> coeff (audio_dec ?d') =
           map (\<lambda>c. c * (160000 / (2 * pi * 75000) / 2)) [1, 1, 1, 1, 1, 1]"
    using w by blast
  let ?e0 = "DemodulatorFm_new fc6 32000 5000"
  let ?e' = "setDemodParams fc6 ?e0 32000 5000"
  let ?xs = "[\<i>, - 1 :: complex]"
  let ?g = "8 / (5 * pi) :: real"
  note U = setDemodParams_effect[of fc6 ?e0 32000 5000, unfolded Let_def]
  have enz: "\<forall>s\<in>set ?xs. s \<noteq> 0" by simp
  have epos: "(0::nat) < 32000 \<and> (0::real) < 5000" by simp
  have esc: "set_coeff (audio_dec ?e0) = [1, 1, 1, 1, 1, 1]"
    by (simp add: DemodulatorFm_new_def setDemodParams_def Let_def setGain_def
        Decimator_new_def setDecimatorParams_def fc6_def)
  from U epos have "coeff (audio_dec ?e') =
      map (\<lambda>c. c * ((real 32000 / (2 * pi * 5000)) / 2)) (set_coeff (audio_dec ?e0))"
    by blast
  then have eco: "coeff (audio_dec ?e') = [?g, ?g, ?g, ?g, ?g, ?g]"
    by (simp add: esc)
  from U have "wb_mode ?e' = ((32000::nat) > 32000)" by blast
  then have ewb: "\<not> wb_mode ?e'" by simp
  have est: "iold ?e' = 1" "qold ?e' = 1" "dec_fact (audio_dec ?e') = 2"
           "taps (audio_dec ?e') = 6" "p_Z (audio_dec ?e') = [0, 0, 0, 0, 0, 0]"
    by (simp_all add: DemodulatorFm_new_def setDemodParams_def Let_def setGain_def
        Decimator_new_def setDecimatorParams_def fc6_def)
  have fir: "fir_sum 6 [?g, ?g, ?g, ?g, ?g, ?g] [pi / 2, pi / 4, 0, 0, 0, 0] = 6 / 5"
    by (simp add: fir_sum_def eval_nat_numeral)
  have dec: "decimate (audio_dec ?e') [] [pi / 4, pi / 2] =
               Inr ([6 / 5], (audio_dec ?e')\<lparr>p_Z := [pi / 2, pi / 4, 0, 0, 0, 0]\<rparr>)"
    by (simp add: decimate_def est eco decimate_loop.simps[of _ _ _ _ "[pi / 4, pi / 2]"]
        decimate_loop.simps[of _ _ _ _ "[]"] shift_in_def fir)
  from U enz have "DemodulatorFm_iq_received ?e' ?xs =
       (case prev_iq (iold ?e', qold ?e') ?xs (length ?xs) of
          (i, q) \<Rightarrow>
            if wb_mode ?e'
            then (case decimate (audio_dec_wb ?e') []
                         (map (\<lambda>k. case prev_iq (iold ?e', qold ?e') ?xs k of
                                 (ip, qp) \<Rightarrow>
                                   atan2 (Im (?xs ! k / complex_of_real (cmod (?xs ! k))) * ip
                                          - Re (?xs ! k / complex_of_real (cmod (?xs ! k))) * qp)
                                         (Re (?xs ! k / complex_of_real (cmod (?xs ! k))) * ip
                                          + Im (?xs ! k / complex_of_real (cmod (?xs ! k))) * qp))
                            [0..<length ?xs]) of
                    Inl e \<Rightarrow> Inl e
                  | Inr (a1, wb') \<Rightarrow>
                      (case decimate (audio_dec ?e') [] a1 of
                         Inl e \<Rightarrow> Inl e
                       | Inr (out, ad') \<Rightarrow>
                           Inr (out, ?e'\<lparr>iold := i, qold := q,
                                          audio_dec_wb := wb', audio_dec := ad'\<rparr>)))
            else (case decimate (audio_dec ?e') []
                         (map (\<lambda>k. case prev_iq (iold ?e', qold ?e') ?xs k of
                                 (ip, qp) \<Rightarrow>
                                   atan2 (Im (?xs ! k / complex_of_real (cmod (?xs ! k))) * ip
                                          - Re (?xs ! k / complex_of_real (cmod (?xs ! k))) * qp)
                                         (Re (?xs ! k / complex_of_real (cmod (?xs ! k))) * ip
                                          + Im (?xs ! k / complex_of_real (cmod (?xs ! k))) * qp))
                            [0..<length ?xs]) of
                    Inl e \<Rightarrow> Inl e
                  | Inr (out, ad') \<Rightarrow> Inr (out, ?e'\<lparr>iold := i, qold := q, audio_dec := ad'\<rparr>)))"
    by blast
  then have "\<exists>d''. DemodulatorFm_iq_received ?e' ?xs = Inr ([6 / 5], d'')"
    using ewb dec by (simp add: est(1,2) atan2_def arctan_one split: prod.splits)
  with first show ?thesis by blast
qed


subsection \<open>The AM demodulator\<close>

lemma am_loop_run: "am_loop xs acc = acc @ map cmod xs"
  by (induction xs arbitrary: acc) simp_all

lemma chSampRate_10K:
  assumes "factors_as_constructed c"
  shows "chSampRate (setBw c BW_10K) = Inr 16000"
proof (cases c)
  case (Channelizer960 o1)
  with assms have f: "\<And>r. dec_fact (decs o1 r) = fact960 r"
    by (simp add: all960)
  show ?thesis
    unfolding Channelizer960
    by (simp add: Channelizer960_setBw_def Obj_decFact_def Obj_chSampRate_def f)
next
  case (Channelizer2400 o2)
  with assms have f: "\<And>r. dec_fact (decs o2 r) = fact2400 r"
    by (simp add: all2400)
  show ?thesis
    unfolding Channelizer2400
    by (simp add: Channelizer2400_setBw_def Obj_decFact_def Obj_chSampRate_def f)
qed

text \<open>
  \<^bold>\<open>C7.\<close> The AM demodulator writes one real sample per input sample, the modulus
  \<open>|s|\<close> of that sample, and leaves its audio decimator untouched: the samples do not
  pass through it and carry no gain. \<^verbatim>\<open>setModulation(MOD_AM)\<close> on a channel with either
  channelizer selects the 10 kHz cascade and the AM demodulator; the channel rate is
  then 16000 for both tuner rates (960000/60 and 2400000/150); and a batch on that
  channel puts the moduli of the channelizer's output, sample for sample, into the
  sink, which therefore receives audio at 16 kHz.
\<close>

theorem am_demod_envelope:
  assumes "channelizer ch = Some c" and "factors_as_constructed c"
  shows "DemodulatorAm_iq_received d samples = (map cmod samples, d)
       \<and> length (fst (DemodulatorAm_iq_received d samples)) = length samples
       \<and> (\<forall>k<length samples. fst (DemodulatorAm_iq_received d samples) ! k = cmod (samples ! k))
       \<and> (\<exists>ch'. Channel_setModulation fc ch MOD_AM = Inr ch'
              \<and> demod ch' = Some AmDemod
              \<and> channelizer ch' = Some (setBw c BW_10K)
              \<and> Channel_chSampRate ch' = Inr 16000
              \<and> 16000 * spec_decFact (tunerRate c) BW_10K = tunerRate c
              \<and> (\<forall>batch audio ch''.
                    Channel_iq_received ch' batch = Inr (audio, ch'') \<longrightarrow>
                      am_demod ch'' = am_demod ch'
                    \<and> (enabled ch' \<longrightarrow>
                         (\<exists>channelized c''.
                            Channelizer_iq_received (setBw c BW_10K) []
                              (fst (Translate_iq_received (trans ch') [] batch))
                              = Inr (channelized, c'')
                          \<and> audio = map cmod channelized))))"
proof -
  let ?ch' = "ch\<lparr>channelizer := Some (setBw c BW_10K), demod := Some AmDemod\<rparr>"
  have am: "DemodulatorAm_iq_received d samples = (map cmod samples, d)"
    by (simp add: DemodulatorAm_iq_received_def am_loop_run)
  have set: "Channel_setModulation fc ch MOD_AM = Inr ?ch'"
    using assms(1) by (simp add: Channel_setModulation_def)
  have rate: "Channel_chSampRate ?ch' = Inr 16000"
    using chSampRate_10K[OF assms(2)] by (simp add: Channel_chSampRate_def)
  have tab: "16000 * spec_decFact (tunerRate c) BW_10K = tunerRate c"
    by (cases c) simp_all
  have path: "\<forall>batch audio ch''.
                Channel_iq_received ?ch' batch = Inr (audio, ch'') \<longrightarrow>
                  am_demod ch'' = am_demod ?ch'
                \<and> (enabled ?ch' \<longrightarrow>
                     (\<exists>channelized c''.
                        Channelizer_iq_received (setBw c BW_10K) []
                          (fst (Translate_iq_received (trans ?ch') [] batch))
                          = Inr (channelized, c'')
                      \<and> audio = map cmod channelized))"
    by (auto simp: Channel_iq_received_def DemodulatorAm_iq_received_def am_loop_run
        bindE_def split: if_splits prod.splits sum.splits)
  from am set rate tab path show ?thesis
    by (intro conjI exI[of _ ?ch']) simp_all
qed


theorem am_demod_envelope_witness:
  "(\<exists>c ch'. Channelizer2400_new fc6 True = Inr c
          \<and> Channel_setModulation fc6
             \<lparr>sample_rate = 2400000,
              channelizer = Some (Channelizer2400 c),
              fm_demod = DemodulatorFm_new fc6 32000 5000,
              am_demod = DemodulatorAm_new fc6,
              demod = None,
              trans = \<lparr>samp_rate = 2400000, exp_lut = [], tr_n = 0\<rparr>,
              enabled = True\<rparr> MOD_AM = Inr ch'
          \<and> demod ch' = Some AmDemod
          \<and> Channel_chSampRate ch' = Inr 16000)
   \<and> DemodulatorAm_iq_received (DemodulatorAm_new fc6) [\<i>, - 2] = ([1, 2], DemodulatorAm_new fc6)"
proof -
  obtain c0 where c0: "Channelizer2400_new fc6 True = Inr c0"
    using Channelizer2400_new_null by blast
  let ?c = "Channelizer2400 c0"
  let ?ch = "\<lparr>sample_rate = 2400000, channelizer = Some ?c,
              fm_demod = DemodulatorFm_new fc6 32000 5000,
              am_demod = DemodulatorAm_new fc6,
              demod = None,
              trans = \<lparr>samp_rate = 2400000, exp_lut = [], tr_n = 0\<rparr>,
              enabled = True\<rparr>"
  have h1: "channelizer ?ch = Some ?c" by simp
  have h2: "factors_as_constructed ?c" using c0 by (rule factors2400_new)
  note T = am_demod_envelope[OF h1 h2, of "DemodulatorAm_new fc6" "[\<i>, - 2]" fc6]
  from T have "DemodulatorAm_iq_received (DemodulatorAm_new fc6) [\<i>, - 2]
                 = (map cmod [\<i>, - 2], DemodulatorAm_new fc6)"
    by blast
  then have a: "DemodulatorAm_iq_received (DemodulatorAm_new fc6) [\<i>, - 2]
                  = ([1, 2], DemodulatorAm_new fc6)"
    by simp
  from T have "\<exists>ch'. Channel_setModulation fc6 ?ch MOD_AM = Inr ch'
          \<and> demod ch' = Some AmDemod \<and> Channel_chSampRate ch' = Inr 16000"
    by blast
  with a c0 show ?thesis by blast
qed

subsection \<open>Retuning\<close>

lemma float_ulp_examples:
  "float_ulp 1025000 = 1" "float_ulp 16777217 = 2" "float_ulp 16777219 = 2"
  "float_ulp 45000001 = 4"
  by (simp_all add: float_ulp.simps[of 1025000] float_ulp.simps[of 16777217]
      float_ulp.simps[of 16777219] float_ulp.simps[of 8388608] float_ulp.simps[of 8388609]
      float_ulp.simps[of 45000001] float_ulp.simps[of 22500000] float_ulp.simps[of 11250000])

lemma int_to_float_examples:
  "int_to_float 1025000 = 1025000"
  "int_to_float 45000001 = 45000000"
  "int_to_float (- 16777217) = - 16777216"
  "int_to_float 16777219 = 16777220"
  by (simp_all add: int_to_float_def float_ulp_examples Let_def)


lemma setOffset_total:
  "\<exists>tr'. Translate_setOffset tr f = Inr tr' \<and> samp_rate tr' = samp_rate tr \<and> tr_n tr' = 0"
proof (cases "f = 0")
  case True
  then show ?thesis by (simp add: setOffset_zero)
next
  case False
  from setOffset_nonzero[OF this, of tr] show ?thesis by simp
qed

lemma fit_bound_rates [simp]:
  "fit_bound 960000 = 467500" "fit_bound 2400000 = 1187500"
  by (simp_all add: fit_bound_def)

lemma double_to_int_whole: "x \<in> \<int> \<Longrightarrow> real_of_int (double_to_int x) = x"
  by (auto simp: double_to_int_def elim: Ints_cases)

lemma double_to_int_between:
  "\<bar>real_of_int (double_to_int x)\<bar> \<le> \<bar>x\<bar> \<and> \<bar>x - real_of_int (double_to_int x)\<bar> < 1"
  by (auto simp: double_to_int_def; linarith)

text \<open>
  \<^bold>\<open>C6\<close> (as amended). On a receiver with a channel, bound to a tuner of rate \<open>R\<close>, 960000
  or 2400000, the event \<^verbatim>\<open>tunerFqChanged(c)\<close> does the following. If
  \<open>|fq - c| > R/2 - 12500\<close>, the channel is disabled afterwards, and the warning is
  printed exactly when the channel was enabled before. Otherwise, the boundary
  \<open>|fq - c| = R/2 - 12500\<close> included, the translator is given the offset \<open>fq - c\<close>
  converted to \<^verbatim>\<open>int\<close>, its fraction dropped, and the channel is enabled, with nothing
  printed. The converted offset is \<open>fq - c\<close> itself when that is a whole number of Hz, and
  is always less than 1 Hz away from it.
\<close>

theorem tunerFqChanged_fit:
  assumes "channel d = Some ch" and "rtl d = Some t"
      and "sampleRate t = R" and "R = 960000 \<or> R = 2400000"
  shows "(\<bar>fq d - real c\<bar> > real (R div 2) - 12500 \<longrightarrow>
            Ddr_tunerFqChanged d c =
              Inr (if enabled ch
                   then (d\<lparr>channel := Some (ch\<lparr>enabled := False\<rparr>)\<rparr>,
                         [WarnCouldNotFit (ddr_name d) (tuner_name t)])
                   else (d, [])))
       \<and> (\<bar>fq d - real c\<bar> \<le> real (R div 2) - 12500 \<longrightarrow>
            (\<exists>tr'. Translate_setOffset (trans ch) (double_to_int (fq d - real c)) = Inr tr'
                 \<and> Ddr_tunerFqChanged d c =
                     Inr (d\<lparr>channel := Some (ch\<lparr>trans := tr', enabled := True\<rparr>)\<rparr>, [])))
       \<and> (fq d - real c \<in> \<int> \<longrightarrow>
            real_of_int (double_to_int (fq d - real c)) = fq d - real c)
       \<and> \<bar>(fq d - real c) - real_of_int (double_to_int (fq d - real c))\<bar> < 1"
proof -
  have b: "real (fit_bound R) = real (R div 2) - 12500"
    using assms(4) by auto
  have far: "\<bar>fq d - real c\<bar> > real (R div 2) - 12500 \<longrightarrow>
            Ddr_tunerFqChanged d c =
              Inr (if enabled ch
                   then (d\<lparr>channel := Some (ch\<lparr>enabled := False\<rparr>)\<rparr>,
                         [WarnCouldNotFit (ddr_name d) (tuner_name t)])
                   else (d, []))"
    using assms(1-3) b
    by (simp add: Ddr_tunerFqChanged_def Let_def isEnabled_def Channel_disable_def)
  obtain tr' where tr': "Translate_setOffset (trans ch) (double_to_int (fq d - real c)) = Inr tr'"
    using setOffset_total by blast
  have near: "\<bar>fq d - real c\<bar> \<le> real (R div 2) - 12500 \<longrightarrow>
            (\<exists>tr'. Translate_setOffset (trans ch) (double_to_int (fq d - real c)) = Inr tr'
                 \<and> Ddr_tunerFqChanged d c =
                     Inr (d\<lparr>channel := Some (ch\<lparr>trans := tr', enabled := True\<rparr>)\<rparr>, []))"
    using assms(1-3) b tr'
    by (simp add: Ddr_tunerFqChanged_def Let_def Channel_setFqOffset_def Channel_enable_def)
  have whole: "fq d - real c \<in> \<int> \<longrightarrow>
                 real_of_int (double_to_int (fq d - real c)) = fq d - real c"
    by (rule impI) (rule double_to_int_whole)
  from far near whole double_to_int_between[of "fq d - real c"] show ?thesis
    by simp
qed


theorem tunerFqChanged_fit_witness:
  "(\<exists>tr'. Ddr_tunerFqChanged (example_ddr 101187500 False) 100000000 =
            Inr ((example_ddr 101187500 False)
                   \<lparr>channel := Some ((example_channel False)\<lparr>trans := tr', enabled := True\<rparr>)\<rparr>, []))
   \<and> Ddr_tunerFqChanged (example_ddr 101187501 True) 100000000 =
         Inr ((example_ddr 101187501 True)
                \<lparr>channel := Some ((example_channel True)\<lparr>enabled := False\<rparr>)\<rparr>,
              [WarnCouldNotFit ''RX1'' ''WBRX1''])
   \<and> Ddr_tunerFqChanged (example_ddr 101187501 False) 100000000 =
         Inr (example_ddr 101187501 False, [])"
proof -
  let ?t = "\<lparr>tuner_name = ''WBRX1'', centerFq = 100000000, sampleRate = 2400000\<rparr>"
  have h: "\<And>f en. channel (example_ddr f en) = Some (example_channel en)"
          "\<And>f en. rtl (example_ddr f en) = Some ?t"
          "sampleRate ?t = 2400000"
          "(2400000::nat) = 960000 \<or> (2400000::nat) = 2400000"
    by (simp_all add: example_ddr_def)
  note A = tunerFqChanged_fit[OF h(1) h(2) h(3) h(4), of 101187500 False 100000000]
  note B = tunerFqChanged_fit[OF h(1) h(2) h(3) h(4), of 101187501 True 100000000]
  note C = tunerFqChanged_fit[OF h(1) h(2) h(3) h(4), of 101187501 False 100000000]
  have f: "\<And>f en. fq (example_ddr f en) = f" "\<And>en. enabled (example_channel en) = en"
          "\<And>f en. ddr_name (example_ddr f en) = ''RX1''"
    by (simp_all add: example_ddr_def example_channel_def)
  from A have a: "\<exists>tr'. Ddr_tunerFqChanged (example_ddr 101187500 False) 100000000 =
            Inr ((example_ddr 101187500 False)
                   \<lparr>channel := Some ((example_channel False)\<lparr>trans := tr', enabled := True\<rparr>)\<rparr>, [])"
    by (simp add: f) blast
  from B have b: "Ddr_tunerFqChanged (example_ddr 101187501 True) 100000000 =
         Inr ((example_ddr 101187501 True)
                \<lparr>channel := Some ((example_channel True)\<lparr>enabled := False\<rparr>)\<rparr>,
              [WarnCouldNotFit ''RX1'' ''WBRX1''])"
    by (simp add: f)
  from C have c: "Ddr_tunerFqChanged (example_ddr 101187501 False) 100000000 =
         Inr (example_ddr 101187501 False, [])"
    by (simp add: f)
  from a b c show ?thesis by blast
qed

text \<open>
  \<^bold>\<open>C6\<close> as stated, with the translator offset equal to \<open>fq - c\<close>, fails for a frequency
  with a fraction: for \<open>fq = 100600000.5\<close> and \<open>c = 100000000\<close> the difference is
  \<open>600000.5\<close>, it fits, and the translator gets the table of \<^verbatim>\<open>setOffset(600000)\<close>.
\<close>

theorem tunerFqChanged_offset_counterexample:
  "fq (example_ddr (201200001 / 2) True) - real 100000000 = 600000 + 1 / 2
   \<and> Translate_setOffset (trans (example_channel True)) 600000 =
         Inr \<lparr>samp_rate = 2400000, exp_lut = map (lut_entry 2400000 600000) [0..<4], tr_n = 0\<rparr>
   \<and> Ddr_tunerFqChanged (example_ddr (201200001 / 2) True) 100000000 =
         Inr ((example_ddr (201200001 / 2) True)
                \<lparr>channel := Some ((example_channel True)
                     \<lparr>trans := \<lparr>samp_rate = 2400000,
                                exp_lut = map (lut_entry 2400000 600000) [0..<4],
                                tr_n = 0\<rparr>,
                      enabled := True\<rparr>)\<rparr>, [])
   \<and> real_of_int 600000 \<noteq> fq (example_ddr (201200001 / 2) True) - real 100000000"
proof -
  have g: "gcd (2400000::nat) (nat \<bar>600000 :: int\<bar>) = 600000"
    by (simp add: gcd_proj2_if_dvd_nat)
  have nz: "(600000::int) \<noteq> 0" by simp
  have s: "Translate_setOffset (trans (example_channel True)) 600000 =
         Inr \<lparr>samp_rate = 2400000, exp_lut = map (lut_entry 2400000 600000) [0..<4], tr_n = 0\<rparr>"
    by (simp only: setOffset_nonzero[OF nz]) (simp add: example_channel_def g)
  have d: "double_to_int (1200001 / 2) = 600000"
    by (simp add: double_to_int_def)
  have "Ddr_tunerFqChanged (example_ddr (201200001 / 2) True) 100000000 =
         Inr ((example_ddr (201200001 / 2) True)
                \<lparr>channel := Some ((example_channel True)
                     \<lparr>trans := \<lparr>samp_rate = 2400000,
                                exp_lut = map (lut_entry 2400000 600000) [0..<4],
                                tr_n = 0\<rparr>,
                      enabled := True\<rparr>)\<rparr>, [])"
    by (simp add: Ddr_tunerFqChanged_def example_ddr_def Let_def d s
        Channel_setFqOffset_def Channel_enable_def del: upt_Suc)
  with s show ?thesis
    by (simp add: example_ddr_def del: upt_Suc)
qed


subsection \<open>The registry\<close>

text \<open>
  \<^bold>\<open>C9.\<close> If the registry already maps the name of a receiver to some instance, then
  \<^verbatim>\<open>initialize()\<close> of that receiver returns false, prints the duplicate-name error and
  nothing else, and leaves the registry as it was, every entry included: the name is
  still mapped to the earlier instance. The receiver itself is untouched too.
\<close>

theorem initialize_duplicate_name:
  assumes "ddr_map (ddr_name d) = Some p"
  shows "Ddr_initialize env ddr_map this d =
           Inr (False, ddr_map, d, [ErrNameNotUnique (ddr_name d)])
       \<and> Ddr_find ddr_map (ddr_name d) = Some p"
  using assms by (simp add: Ddr_initialize_def Ddr_find_def)

theorem initialize_duplicate_name_witness:
  "Ddr_initialize example_env [''RX1'' \<mapsto> 1] 2 (Ddr_new ''RX1'') =
     Inr (False, [''RX1'' \<mapsto> 1], Ddr_new ''RX1'', [ErrNameNotUnique ''RX1''])
   \<and> Ddr_find [''RX1'' \<mapsto> 1] ''RX1'' = Some 1"
proof -
  have h: "[''RX1'' \<mapsto> 1::nat] (ddr_name (Ddr_new ''RX1'')) = Some 1"
    by (simp add: Ddr_new_def)
  have n: "ddr_name (Ddr_new ''RX1'') = ''RX1''"
    by (simp add: Ddr_new_def)
  from initialize_duplicate_name[where ddr_map="[''RX1'' \<mapsto> 1]" and d="Ddr_new ''RX1''"
      and p=1 and env=example_env and this=2, OF h]
  show ?thesis
    by (simp only: n)
qed

lemma initialize_FQ_missing:
  assumes "ddr_map (ddr_name d) = None" and "getValue_double env (ddr_name d) ''FQ'' = None"
  shows "Ddr_initialize env ddr_map this d =
           Inr (False, ddr_map(ddr_name d \<mapsto> this), d, [ErrFqNotSet (ddr_name d)])"
  using assms by (simp add: Ddr_initialize_def)

lemma initialize_WBRX_missing:
  assumes "ddr_map (ddr_name d) = None" and "getValue_double env (ddr_name d) ''FQ'' = Some f"
      and "cfg env (ddr_name d, ''WBRX'') = None"
  shows "Ddr_initialize env ddr_map this d =
           Inr (False, ddr_map(ddr_name d \<mapsto> this), d\<lparr>fq := f\<rparr>,
                [ErrWbrxNotSet (ddr_name d)])"
  using assms by (simp add: Ddr_initialize_def)

lemma destroy_erases_by_name:
  "fst (Ddr_destroy ddr_map this d) (ddr_name d) = None"
  by (simp add: Ddr_destroy_def Let_def)

text \<open>
  \<^bold>\<open>C10.\<close> \<^verbatim>\<open>initialize()\<close> enters the name into the registry before it reads \<^verbatim>\<open>FQ\<close>,
  and a failing return leaves it there: \<^verbatim>\<open>Ddr::find\<close> returns the failed instance, and
  \<^verbatim>\<open>initialize()\<close> of a second receiver of that name fails with the duplicate-name error.
  But the name does not stay mapped until the failed instance is destroyed. The
  destructor erases the entry of its name without looking whose entry it is, so the
  destructor of the rejected second receiver removes the entry of the first. Here
  receiver 1, named \<^verbatim>\<open>RX2\<close>, fails for want of \<^verbatim>\<open>FQ\<close>; receiver 2 of the same name is
  rejected and then destroyed; and \<^verbatim>\<open>Ddr::find\<close> no longer finds receiver 1, which was
  never destroyed.
\<close>

theorem destroy_duplicate_unmaps_failed_instance:
  "Ddr_initialize example_env Map.empty 1 (Ddr_new ''RX2'') =
     Inr (False, [''RX2'' \<mapsto> 1], Ddr_new ''RX2'', [ErrFqNotSet ''RX2''])
   \<and> Ddr_find [''RX2'' \<mapsto> 1] ''RX2'' = Some 1
   \<and> Ddr_initialize example_env [''RX2'' \<mapsto> 1] 2 (Ddr_new ''RX2'') =
       Inr (False, [''RX2'' \<mapsto> 1], Ddr_new ''RX2'', [ErrNameNotUnique ''RX2''])
   \<and> Ddr_destroy [''RX2'' \<mapsto> 1] 2 (Ddr_new ''RX2'') = (Map.empty, [])
   \<and> Ddr_find (fst (Ddr_destroy [''RX2'' \<mapsto> 1] 2 (Ddr_new ''RX2''))) ''RX2'' = None"
proof -
  let ?d = "Ddr_new ''RX2''"
  have n: "ddr_name ?d = ''RX2''" "rtl ?d = None"
    by (simp_all add: Ddr_new_def)
  have fqm: "getValue_double example_env ''RX2'' ''FQ'' = None"
    by (simp add: getValue_double_def example_env_def)
  have a: "Ddr_initialize example_env Map.empty 1 ?d =
             Inr (False, [''RX2'' \<mapsto> 1], ?d, [ErrFqNotSet ''RX2''])"
    by (simp add: Ddr_initialize_def n fqm)
  have b: "Ddr_find [''RX2'' \<mapsto> 1] ''RX2'' = Some 1"
    by (simp add: Ddr_find_def)
  have c: "Ddr_initialize example_env [''RX2'' \<mapsto> 1] 2 ?d =
             Inr (False, [''RX2'' \<mapsto> 1], ?d, [ErrNameNotUnique ''RX2''])"
    by (simp add: Ddr_initialize_def n)
  have e: "Ddr_destroy [''RX2'' \<mapsto> 1] 2 ?d = (Map.empty, [])"
    by (simp add: Ddr_destroy_def n Let_def)
  have f: "Ddr_find (fst (Ddr_destroy [''RX2'' \<mapsto> 1] 2 ?d)) ''RX2'' = None"
    by (simp only: e fst_conv) (simp add: Ddr_find_def)
  from a b c e f show ?thesis by blast
qed

end
